theory Spec2Isabelle
  imports Complex_Main
begin

section \<open>Data model of the isotopologue generators\<close>

text \<open>
  The development follows \<^verbatim>\<open>IsoSpec++/isoSpec++.h\<close> and \<^verbatim>\<open>IsoSpec++/misc.h\<close>.
  A C++ \<^verbatim>\<open>double\<close> is a \<^typ>\<open>real\<close> that the arithmetic has rounded: every \<^verbatim>\<open>+\<close> and \<^verbatim>\<open>*\<close> on
  doubles is the exact operation followed by a rounding of its result to a double
  (\<^verbatim>\<open>FLT_EVAL_METHOD\<close> 0); comparisons are exact. For the generators, which never touch
  the rounding mode, the rounding is the parameter \<open>rnd\<close> of every function below; \<open>fl\<close>
  further down is the rounding of IEEE 754 binary64 in its default mode. Where the
  code sets a rounding mode (\<^verbatim>\<open>unnormalized_logProb\<close>, last section) the mode is explicit
  state. An array is a list, and an access to an array outside its bounds, which is
  undefined behaviour in C++, is the error \<open>OutOfRange\<close>. An \<^verbatim>\<open>int\<close> is an \<^typ>\<open>int\<close>; the
  counters index tables that live in memory and stay far inside the range of \<^verbatim>\<open>int\<close>.
\<close>

datatype error = OutOfRange | InvalidThreshold

text \<open>
  The arrays a \<^verbatim>\<open>PrecalculatedMarginal\<close> hands out through \<^verbatim>\<open>get_conf\<close>, \<^verbatim>\<open>get_lProb\<close>,
  \<^verbatim>\<open>get_mass\<close>, \<^verbatim>\<open>get_eProb\<close> and the three \<^verbatim>\<open>get_..._ptr\<close> accessors. The class is
  declared in \<^verbatim>\<open>marginalTrek++.h\<close>; the generators only read these four parallel tables.
\<close>

record marginal =
  confs :: "int list list"
  lProbs :: "real list"
  masses :: "real list"
  eProbs :: "real list"

text \<open>The class hierarchy \<^verbatim>\<open>Iso\<close>, \<^verbatim>\<open>IsoGenerator\<close>, \<^verbatim>\<open>IsoThresholdGenerator\<close>,
  \<^verbatim>\<open>IsoThresholdGeneratorFast\<close> as record extensions. The pointer members of the fast
  generator that alias a fixed cell (\<^verbatim>\<open>counter_first\<close>, \<^verbatim>\<open>partialLProbs_first\<close>,
  \<^verbatim>\<open>partialLProbs_second\<close>, ...) are the cells \<open>0\<close> and \<open>1\<close> of the arrays they point into;
  the three moving pointers into the tables of marginal \<open>0\<close> are offsets into those tables.
  Of the members of \<^verbatim>\<open>Iso\<close> the records keep those the generators read; the marginals an
  \<^verbatim>\<open>Iso\<close> owns are absorbed by the generator built from it.\<close>

record iso =
  dimNumber :: nat
  isotopeNumbers :: "nat list"
  modeLProb :: real

record iso_generator = iso +
  partialLProbs :: "real list"
  partialMasses :: "real list"
  partialExpProbs :: "real list"

record iso_threshold_generator = iso_generator +
  counter :: "int list"
  maxConfsLPSum :: "real list"
  Lcutoff :: real
  marginalResults :: "marginal list"

record iso_threshold_generator_fast = iso_threshold_generator +
  lProbs_ptr :: nat
  mass_ptr :: nat
  exp_ptr :: nat

section \<open>The threshold generators\<close>

subsection \<open>Accessors of \<^verbatim>\<open>IsoGenerator\<close>\<close>

definition lprob :: "'a iso_generator_scheme \<Rightarrow> error + real" where
  "lprob g = (if partialLProbs g = [] then Inl OutOfRange else Inr (partialLProbs g ! 0))"

definition mass :: "'a iso_generator_scheme \<Rightarrow> error + real" where
  "mass g = (if partialMasses g = [] then Inl OutOfRange else Inr (partialMasses g ! 0))"

definition eprob :: "'a iso_generator_scheme \<Rightarrow> error + real" where
  "eprob g = (if partialExpProbs g = [] then Inl OutOfRange else Inr (partialExpProbs g ! 0))"

subsection \<open>\<^verbatim>\<open>recalc\<close>\<close>

text \<open>One round of the loop body of \<^verbatim>\<open>recalc\<close> (the same text in \<^verbatim>\<open>IsoThresholdGenerator\<close>
  and in \<^verbatim>\<open>IsoThresholdGeneratorFast\<close>), with every array access checked.\<close>

definition recalc_in_range :: "nat \<Rightarrow> 'a iso_threshold_generator_scheme \<Rightarrow> bool" where
  "recalc_in_range i g \<longleftrightarrow>
     i + 1 < length (partialLProbs g) \<and> i + 1 < length (partialMasses g) \<and>
     i + 1 < length (partialExpProbs g) \<and> i < length (marginalResults g) \<and>
     i < length (counter g) \<and> 0 \<le> counter g ! i \<and>
     nat (counter g ! i) < length (lProbs (marginalResults g ! i)) \<and>
     nat (counter g ! i) < length (masses (marginalResults g ! i)) \<and>
     nat (counter g ! i) < length (eProbs (marginalResults g ! i))"

definition recalc_body ::
  "(real \<Rightarrow> real) \<Rightarrow> nat \<Rightarrow> 'a iso_threshold_generator_scheme \<Rightarrow> 'a iso_threshold_generator_scheme" where
  "recalc_body rnd i g =
     g\<lparr>partialLProbs := (partialLProbs g)
          [i := rnd (partialLProbs g ! (i + 1)
                     + lProbs (marginalResults g ! i) ! nat (counter g ! i))],
       partialMasses := (partialMasses g)
          [i := rnd (partialMasses g ! (i + 1)
                     + masses (marginalResults g ! i) ! nat (counter g ! i))],
       partialExpProbs := (partialExpProbs g)
          [i := rnd (partialExpProbs g ! (i + 1)
                     * eProbs (marginalResults g ! i) ! nat (counter g ! i))]\<rparr>"

function recalc ::
  "(real \<Rightarrow> real) \<Rightarrow> int \<Rightarrow> 'a iso_threshold_generator_scheme
     \<Rightarrow> error + 'a iso_threshold_generator_scheme" where
  "recalc rnd idx g =
     (if idx \<ge> 0 then
        (if recalc_in_range (nat idx) g then recalc rnd (idx - 1) (recalc_body rnd (nat idx) g)
         else Inl OutOfRange)
      else Inr g)"
  by pat_completeness auto
termination
  by (relation "measure (\<lambda>(rnd, idx, g). nat (idx + 1))") auto

declare recalc.simps [simp del]

subsection \<open>\<^verbatim>\<open>IsoThresholdGeneratorFast::advanceToNextConfiguration\<close>\<close>

text \<open>The carry loop \<^verbatim>\<open>while(idx<dimNumber-1)\<close>. \<^verbatim>\<open>terminate_search\<close> is declared in the
  header and defined elsewhere; it is the parameter \<open>ts\<close>. The test of the loop rounds the
  sum \<^verbatim>\<open>partialLProbs[idx] + maxConfsLPSum[idx-1]\<close> before it compares it with
  \<^verbatim>\<open>Lcutoff\<close>.\<close>

definition carry_in_range :: "nat \<Rightarrow> 'a iso_threshold_generator_scheme \<Rightarrow> bool" where
  "carry_in_range idx g \<longleftrightarrow>
     idx + 1 < length (counter g) \<and> idx + 2 < length (partialLProbs g) \<and>
     idx + 1 < length (marginalResults g) \<and> 0 \<le> counter g ! (idx + 1) + 1 \<and>
     nat (counter g ! (idx + 1) + 1) < length (lProbs (marginalResults g ! (idx + 1))) \<and>
     idx < length (maxConfsLPSum g)"

definition carry_step ::
  "(real \<Rightarrow> real) \<Rightarrow> nat \<Rightarrow> 'a iso_threshold_generator_scheme \<Rightarrow> 'a iso_threshold_generator_scheme" where
  "carry_step rnd idx g =
     (let cnt = (counter g)[idx := 0];
          cnt' = cnt[idx + 1 := cnt ! (idx + 1) + 1]
      in g\<lparr>counter := cnt',
            partialLProbs := (partialLProbs g)
              [idx + 1 := rnd (partialLProbs g ! (idx + 2)
                               + lProbs (marginalResults g ! (idx + 1)) ! nat (cnt' ! (idx + 1)))]\<rparr>)"

definition carry_test :: "(real \<Rightarrow> real) \<Rightarrow> nat \<Rightarrow> 'a iso_threshold_generator_scheme \<Rightarrow> bool" where
  "carry_test rnd idx g \<longleftrightarrow>
     rnd (partialLProbs g ! (idx + 1) + maxConfsLPSum g ! idx) \<ge> Lcutoff g"

definition accept_in_range :: "nat \<Rightarrow> 'a iso_threshold_generator_scheme \<Rightarrow> bool" where
  "accept_in_range i g \<longleftrightarrow>
     i + 1 < length (partialMasses g) \<and> i + 1 < length (partialExpProbs g) \<and>
     i < length (counter g) \<and> i < length (marginalResults g) \<and> 0 \<le> counter g ! i \<and>
     nat (counter g ! i) < length (masses (marginalResults g ! i)) \<and>
     nat (counter g ! i) < length (eProbs (marginalResults g ! i))"

definition accept_step ::
  "(real \<Rightarrow> real) \<Rightarrow> nat \<Rightarrow> 'a iso_threshold_generator_scheme \<Rightarrow> 'a iso_threshold_generator_scheme" where
  "accept_step rnd i g =
     g\<lparr>partialMasses := (partialMasses g)
          [i := rnd (partialMasses g ! (i + 1)
                     + masses (marginalResults g ! i) ! nat (counter g ! i))],
       partialExpProbs := (partialExpProbs g)
          [i := rnd (partialExpProbs g ! (i + 1)
                     * eProbs (marginalResults g ! i) ! nat (counter g ! i))]\<rparr>"

function carry ::
  "(real \<Rightarrow> real) \<Rightarrow> ('a iso_threshold_generator_scheme \<Rightarrow> 'a iso_threshold_generator_scheme) \<Rightarrow> nat
    \<Rightarrow> 'a iso_threshold_generator_scheme \<Rightarrow> error + bool \<times> 'a iso_threshold_generator_scheme" where
  "carry rnd ts idx g =
     (if idx < dimNumber g - 1 then
        (if \<not> carry_in_range idx g then Inl OutOfRange
         else if carry_test rnd idx (carry_step rnd idx g) then
           (if \<not> accept_in_range (idx + 1) (carry_step rnd idx g) then Inl OutOfRange
            else (case recalc rnd (int idx) (accept_step rnd (idx + 1) (carry_step rnd idx g)) of
                    Inl e \<Rightarrow> Inl e
                  | Inr g' \<Rightarrow> Inr (True, g')))
         else carry rnd ts (idx + 1) (carry_step rnd idx g))
      else Inr (False, ts g))"
  by pat_completeness auto
termination
  by (relation "measure (\<lambda>(rnd, ts, idx, g). dimNumber g - 1 - idx)")
     (auto simp: carry_step_def Let_def)

declare carry.simps [simp del]

text \<open>The first lines of the function: \<^verbatim>\<open>*lProbs_ptr\<close> is read before the three pointers
  move, \<^verbatim>\<open>*mass_ptr\<close> and \<^verbatim>\<open>*exp_ptr\<close> are read after.\<close>

definition hot_in_range :: "iso_threshold_generator_fast \<Rightarrow> bool" where
  "hot_in_range g \<longleftrightarrow>
     counter g \<noteq> [] \<and> 1 < length (partialLProbs g) \<and> marginalResults g \<noteq> [] \<and>
     lProbs_ptr g < length (lProbs (marginalResults g ! 0))"

definition hot_step :: "(real \<Rightarrow> real) \<Rightarrow> iso_threshold_generator_fast \<Rightarrow> iso_threshold_generator_fast" where
  "hot_step rnd g =
     g\<lparr>counter := (counter g)[0 := counter g ! 0 + 1],
       partialLProbs := (partialLProbs g)
          [0 := rnd (partialLProbs g ! 1 + lProbs (marginalResults g ! 0) ! lProbs_ptr g)],
       lProbs_ptr := lProbs_ptr g + 1,
       mass_ptr := mass_ptr g + 1,
       exp_ptr := exp_ptr g + 1\<rparr>"

definition hot_accept_in_range :: "iso_threshold_generator_fast \<Rightarrow> bool" where
  "hot_accept_in_range g \<longleftrightarrow>
     1 < length (partialMasses g) \<and> 1 < length (partialExpProbs g) \<and>
     mass_ptr g < length (masses (marginalResults g ! 0)) \<and>
     exp_ptr g < length (eProbs (marginalResults g ! 0))"

definition hot_accept :: "(real \<Rightarrow> real) \<Rightarrow> iso_threshold_generator_fast \<Rightarrow> iso_threshold_generator_fast" where
  "hot_accept rnd g =
     g\<lparr>partialMasses := (partialMasses g)
          [0 := rnd (partialMasses g ! 1 + masses (marginalResults g ! 0) ! mass_ptr g)],
       partialExpProbs := (partialExpProbs g)
          [0 := rnd (partialExpProbs g ! 1 * eProbs (marginalResults g ! 0) ! exp_ptr g)]\<rparr>"

definition advanceToNextConfiguration_fast ::
  "(real \<Rightarrow> real) \<Rightarrow> (iso_threshold_generator_fast \<Rightarrow> iso_threshold_generator_fast)
     \<Rightarrow> iso_threshold_generator_fast \<Rightarrow> error + bool \<times> iso_threshold_generator_fast" where
  "advanceToNextConfiguration_fast rnd ts g =
     (if \<not> hot_in_range g then Inl OutOfRange
      else if partialLProbs (hot_step rnd g) ! 0 \<ge> Lcutoff g then
        (if \<not> hot_accept_in_range (hot_step rnd g) then Inl OutOfRange
         else Inr (True, hot_accept rnd (hot_step rnd g)))
      else carry rnd ts 0 ((hot_step rnd g)\<lparr>lProbs_ptr := 1, mass_ptr := 1, exp_ptr := 1\<rparr>))"

subsection \<open>\<^verbatim>\<open>IsoThresholdGeneratorCntr::advanceToNextConfiguration\<close>\<close>

text \<open>The count-only generator is a fast generator (it inherits its members and its
  constructor); its own \<^verbatim>\<open>recalc\<close> and carry loop maintain \<^verbatim>\<open>partialLProbs\<close> only.\<close>

definition recalc_cntr_in_range :: "nat \<Rightarrow> 'a iso_threshold_generator_scheme \<Rightarrow> bool" where
  "recalc_cntr_in_range i g \<longleftrightarrow>
     i + 1 < length (partialLProbs g) \<and> i < length (marginalResults g) \<and>
     i < length (counter g) \<and> 0 \<le> counter g ! i \<and>
     nat (counter g ! i) < length (lProbs (marginalResults g ! i))"

definition recalc_cntr_body ::
  "(real \<Rightarrow> real) \<Rightarrow> nat \<Rightarrow> 'a iso_threshold_generator_scheme \<Rightarrow> 'a iso_threshold_generator_scheme" where
  "recalc_cntr_body rnd i g =
     g\<lparr>partialLProbs := (partialLProbs g)
          [i := rnd (partialLProbs g ! (i + 1)
                     + lProbs (marginalResults g ! i) ! nat (counter g ! i))]\<rparr>"

function recalc_cntr ::
  "(real \<Rightarrow> real) \<Rightarrow> int \<Rightarrow> 'a iso_threshold_generator_scheme
     \<Rightarrow> error + 'a iso_threshold_generator_scheme" where
  "recalc_cntr rnd idx g =
     (if idx \<ge> 0 then
        (if recalc_cntr_in_range (nat idx) g
         then recalc_cntr rnd (idx - 1) (recalc_cntr_body rnd (nat idx) g)
         else Inl OutOfRange)
      else Inr g)"
  by pat_completeness auto
termination
  by (relation "measure (\<lambda>(rnd, idx, g). nat (idx + 1))") auto

declare recalc_cntr.simps [simp del]

function carry_cntr ::
  "(real \<Rightarrow> real) \<Rightarrow> ('a iso_threshold_generator_scheme \<Rightarrow> 'a iso_threshold_generator_scheme) \<Rightarrow> nat
    \<Rightarrow> 'a iso_threshold_generator_scheme \<Rightarrow> error + bool \<times> 'a iso_threshold_generator_scheme" where
  "carry_cntr rnd ts idx g =
     (if idx < dimNumber g - 1 then
        (if \<not> carry_in_range idx g then Inl OutOfRange
         else if carry_test rnd idx (carry_step rnd idx g) then
           (case recalc_cntr rnd (int idx) (carry_step rnd idx g) of
              Inl e \<Rightarrow> Inl e
            | Inr g' \<Rightarrow> Inr (True, g'))
         else carry_cntr rnd ts (idx + 1) (carry_step rnd idx g))
      else Inr (False, ts g))"
  by pat_completeness auto
termination
  by (relation "measure (\<lambda>(rnd, ts, idx, g). dimNumber g - 1 - idx)")
     (auto simp: carry_step_def Let_def)

declare carry_cntr.simps [simp del]

definition hot_step_cntr :: "(real \<Rightarrow> real) \<Rightarrow> iso_threshold_generator_fast \<Rightarrow> iso_threshold_generator_fast" where
  "hot_step_cntr rnd g =
     g\<lparr>counter := (counter g)[0 := counter g ! 0 + 1],
       partialLProbs := (partialLProbs g)
          [0 := rnd (partialLProbs g ! 1 + lProbs (marginalResults g ! 0) ! lProbs_ptr g)],
       lProbs_ptr := lProbs_ptr g + 1\<rparr>"

definition advanceToNextConfiguration_cntr ::
  "(real \<Rightarrow> real) \<Rightarrow> (iso_threshold_generator_fast \<Rightarrow> iso_threshold_generator_fast)
     \<Rightarrow> iso_threshold_generator_fast \<Rightarrow> error + bool \<times> iso_threshold_generator_fast" where
  "advanceToNextConfiguration_cntr rnd ts g =
     (if \<not> hot_in_range g then Inl OutOfRange
      else if partialLProbs (hot_step_cntr rnd g) ! 0 \<ge> Lcutoff g then Inr (True, hot_step_cntr rnd g)
      else carry_cntr rnd ts 0 ((hot_step_cntr rnd g)\<lparr>lProbs_ptr := 1\<rparr>))"

subsection \<open>The base generator and the constructors\<close>

text \<open>Modelled from the spec: \<^verbatim>\<open>IsoThresholdGenerator::advanceToNextConfiguration\<close> is only
  declared in the header. The spec (4.8, "Advance algorithm") increments \<open>counter[0]\<close>,
  updates \<open>partialLProb[0]\<close> by the recurrence
  \<open>partialX[d] = partialX[d+1] + marginal_d[counter[d]]\<close> of its data model, on
  \<open>partialLProb[0] \<ge> L\<close> also updates mass and eprob, by the same recurrence, and returns
  true, and otherwise runs the carry cascade, which is the loop of the fast variant.\<close>

text \<open>Modelled from the spec: the array accesses of the base advance before the carry,
  checked.\<close>

definition base_in_range :: "'a iso_threshold_generator_scheme \<Rightarrow> bool" where
  "base_in_range g \<longleftrightarrow>
     counter g \<noteq> [] \<and> 1 < length (partialLProbs g) \<and> marginalResults g \<noteq> [] \<and>
     0 \<le> counter g ! 0 + 1 \<and>
     nat (counter g ! 0 + 1) < length (lProbs (marginalResults g ! 0))"

text \<open>Modelled from the spec: "Increment counter[0]. Update partialLProb[0]".\<close>

definition base_step ::
  "(real \<Rightarrow> real) \<Rightarrow> 'a iso_threshold_generator_scheme \<Rightarrow> 'a iso_threshold_generator_scheme" where
  "base_step rnd g =
     g\<lparr>counter := (counter g)[0 := counter g ! 0 + 1],
       partialLProbs := (partialLProbs g)
          [0 := rnd (partialLProbs g ! 1
                     + lProbs (marginalResults g ! 0) ! nat (counter g ! 0 + 1))]\<rparr>"

text \<open>Modelled from the spec: the advance of the base generator; \<^verbatim>\<open>terminate_search\<close> is
  the parameter \<open>ts\<close> as above.\<close>

definition advanceToNextConfiguration ::
  "(real \<Rightarrow> real) \<Rightarrow> ('a iso_threshold_generator_scheme \<Rightarrow> 'a iso_threshold_generator_scheme)
     \<Rightarrow> 'a iso_threshold_generator_scheme \<Rightarrow> error + bool \<times> 'a iso_threshold_generator_scheme" where
  "advanceToNextConfiguration rnd ts g =
     (if \<not> base_in_range g then Inl OutOfRange
      else if partialLProbs (base_step rnd g) ! 0 \<ge> Lcutoff g then
        (if \<not> accept_in_range 0 (base_step rnd g) then Inl OutOfRange
         else Inr (True, accept_step rnd 0 (base_step rnd g)))
      else carry rnd ts 0 (base_step rnd g))"

text \<open>Modelled from the spec: the cutoff of section 6, \<open>log \<tau>\<close> when absolute and
  \<open>log \<tau> + modeLProb\<close> otherwise.\<close>

definition threshold_cutoff :: "real \<Rightarrow> bool \<Rightarrow> real \<Rightarrow> real" where
  "threshold_cutoff threshold absolute mode =
     (if absolute then ln threshold else ln threshold + mode)"

text \<open>Modelled from the spec: step 2 of 4.8, \<open>maxLPSum[d] = \<Sum>\<^bsub>e\<le>d\<^esub> lprob\<^sub>e[0]\<close>, the cumulative
  sums of the mode log-probabilities, each sum a double.\<close>

primrec cumulative_sums :: "(real \<Rightarrow> real) \<Rightarrow> real \<Rightarrow> real list \<Rightarrow> real list" where
  "cumulative_sums rnd acc [] = []"
| "cumulative_sums rnd acc (x # xs) = rnd (acc + x) # cumulative_sums rnd (rnd (acc + x)) xs"

text \<open>Modelled from the spec: the constructor \<^verbatim>\<open>IsoThresholdGenerator::IsoThresholdGenerator\<close>
  is only declared in the header; this is the construction of 4.8 from the absorbed
  \<^verbatim>\<open>Iso\<close>, the precomputed marginals \<open>tables\<close> (step 1, class \<^verbatim>\<open>PrecalculatedMarginal\<close>), the
  threshold and the flag \<^verbatim>\<open>_absolute\<close>. Sections 6 and 7: a threshold \<open>\<tau> \<le> 0\<close>, or \<open>\<tau> > 1\<close>
  when relative, is the error \<open>InvalidThreshold\<close> (the header declares no error type; section
  8 builds a generator with \<open>\<tau> = 0\<close> and section 9 reports that the source accepts a
  relative \<open>\<tau> > 1\<close>). Step 3: every counter starts at 0, the prefix arrays end in
  \<open>0, 0, 1\<close> and are filled downward by the recurrence, which is \<^verbatim>\<open>recalc\<close>. The advance increments \<open>counter[0]\<close> before it tests, and the contract of 4.8
  has the joint mode, all counters 0, emitted; so the constructed generator stands one
  step before the mode, \<open>counter[0] = - 1\<close>. This is also what the header needs: the fast
  constructor points \<^verbatim>\<open>lProbs_ptr\<close> at entry \<open>0\<close> of marginal 0, and everywhere else in the
  header \<^verbatim>\<open>lProbs_ptr\<close> stands at entry \<open>counter[0] + 1\<close>.\<close>

definition IsoThresholdGenerator ::
  "(real \<Rightarrow> real) \<Rightarrow> iso \<Rightarrow> marginal list \<Rightarrow> real \<Rightarrow> bool \<Rightarrow> error + iso_threshold_generator" where
  "IsoThresholdGenerator rnd i tables threshold absolute =
     (if threshold \<le> 0 \<or> (\<not> absolute \<and> 1 < threshold) then Inl InvalidThreshold
      else if dimNumber i = 0 \<or> length tables < dimNumber i
              \<or> list_ex (\<lambda>m. lProbs m = []) (take (dimNumber i) tables)
        then Inl OutOfRange
      else
        (case recalc rnd (int (dimNumber i) - 1)
           \<lparr>dimNumber = dimNumber i, isotopeNumbers = isotopeNumbers i, modeLProb = modeLProb i,
            partialLProbs = replicate (dimNumber i) 0 @ [0],
            partialMasses = replicate (dimNumber i) 0 @ [0],
            partialExpProbs = replicate (dimNumber i) 0 @ [1],
            counter = replicate (dimNumber i) 0,
            maxConfsLPSum = cumulative_sums rnd 0
                              (map (\<lambda>m. lProbs m ! 0) (take (dimNumber i) tables)),
            Lcutoff = threshold_cutoff threshold absolute (modeLProb i),
            marginalResults = tables\<rparr> of
           Inl e \<Rightarrow> Inl e
         | Inr g \<Rightarrow> Inr (g\<lparr>counter := (counter g)[0 := - 1]\<rparr>)))"

text \<open>The constructor of \<^verbatim>\<open>IsoThresholdGeneratorFast\<close> runs the base constructor and points
  the three table pointers at the first cells of marginal 0. The constructor of
  \<^verbatim>\<open>IsoThresholdGeneratorCntr\<close> has an empty body and runs the constructor of the fast
  generator.\<close>

definition IsoThresholdGeneratorFast ::
  "(real \<Rightarrow> real) \<Rightarrow> iso \<Rightarrow> marginal list \<Rightarrow> real \<Rightarrow> bool \<Rightarrow> error + iso_threshold_generator_fast" where
  "IsoThresholdGeneratorFast rnd i tables threshold absolute =
     (case IsoThresholdGenerator rnd i tables threshold absolute of
        Inl e \<Rightarrow> Inl e
      | Inr g \<Rightarrow>
          if marginalResults g = [] then Inl OutOfRange
          else Inr (iso_threshold_generator.extend g
                      \<lparr>lProbs_ptr = 0, mass_ptr = 0, exp_ptr = 0\<rparr>))"

definition IsoThresholdGeneratorCntr ::
  "(real \<Rightarrow> real) \<Rightarrow> iso \<Rightarrow> marginal list \<Rightarrow> real \<Rightarrow> bool \<Rightarrow> error + iso_threshold_generator_fast" where
  "IsoThresholdGeneratorCntr rnd i tables threshold absolute =
     IsoThresholdGeneratorFast rnd i tables threshold absolute"

subsection \<open>The client loop\<close>

text \<open>\<^verbatim>\<open>while(iso.advanceToNextConfiguration()) { ... }\<close> as in
  \<^verbatim>\<open>Examples/C++/test_generator.cpp\<close>: the states after each successful advance, up to
  the first \<open>false\<close>. \<open>None\<close> stands for a loop still running when the fuel is used up.\<close>

fun run :: "('s \<Rightarrow> error + bool \<times> 's) \<Rightarrow> nat \<Rightarrow> 's \<Rightarrow> (error + 's list) option" where
  "run adv 0 g = None"
| "run adv (Suc n) g =
     (case adv g of
        Inl e \<Rightarrow> Some (Inl e)
      | Inr (False, g') \<Rightarrow> Some (Inr [])
      | Inr (True, g') \<Rightarrow>
          (case run adv n g' of
             None \<Rightarrow> None
           | Some (Inl e) \<Rightarrow> Some (Inl e)
           | Some (Inr gs) \<Rightarrow> Some (Inr (g' # gs))))"

subsection \<open>\<^verbatim>\<open>get_conf_signature\<close>\<close>

text \<open>\<^verbatim>\<open>memcpy(space, src, n*sizeof(int))\<close> into the caller's buffer at offset \<open>off\<close>
  (the pointer \<^verbatim>\<open>space\<close> moves on by \<^verbatim>\<open>space += isotopeNumbers[ii]\<close>). The caller's buffer
  is a list of its own: it does not overlap the generator's private arrays.\<close>

definition memcpy_ints :: "int list \<Rightarrow> nat \<Rightarrow> int list \<Rightarrow> nat \<Rightarrow> error + int list" where
  "memcpy_ints space off src n =
     (if off + n \<le> length space \<and> n \<le> length src
      then Inr (take off space @ take n src @ drop (off + n) space)
      else Inl OutOfRange)"

text \<open>The loop \<^verbatim>\<open>for(int ii=0; ii<dimNumber; ii++) { memcpy(...); space += isotopeNumbers[ii]; }\<close>
  is the same text in \<^verbatim>\<open>IsoOrderedGenerator\<close> and \<^verbatim>\<open>IsoThresholdGenerator\<close>; they differ in
  the table of configurations \<open>tabs ! ii\<close> of slot \<open>ii\<close> and in the index \<open>idx ! ii\<close> read
  there (\<^verbatim>\<open>counter[ii]\<close>, or \<^verbatim>\<open>c[ii]\<close> inside \<^verbatim>\<open>topConf\<close>).\<close>

function copy_confs ::
  "nat \<Rightarrow> nat list \<Rightarrow> int list list list \<Rightarrow> int list \<Rightarrow> nat \<Rightarrow> nat \<Rightarrow> int list \<Rightarrow> error + int list" where
  "copy_confs D ks tabs idx ii off space =
     (if ii < D then
        (if ii < length tabs \<and> ii < length idx \<and> ii < length ks \<and>
            0 \<le> idx ! ii \<and> nat (idx ! ii) < length (tabs ! ii) then
           (case memcpy_ints space off (tabs ! ii ! nat (idx ! ii)) (ks ! ii) of
              Inl e \<Rightarrow> Inl e
            | Inr space' \<Rightarrow> copy_confs D ks tabs idx (ii + 1) (off + ks ! ii) space')
         else Inl OutOfRange)
      else Inr space)"
  by pat_completeness auto
termination
  by (relation "measure (\<lambda>(D, ks, tabs, idx, ii, off, space). D - ii)") auto

declare copy_confs.simps [simp del]

text \<open>What the loop copies from slot \<open>ii\<close> on: \<open>ks ! j\<close> integers of the current
  configuration of each slot \<open>j\<close>, one after the other.\<close>

definition signature_from :: "nat \<Rightarrow> nat list \<Rightarrow> int list list list \<Rightarrow> int list \<Rightarrow> nat \<Rightarrow> int list" where
  "signature_from D ks tabs idx ii =
     concat (map (\<lambda>j. take (ks ! j) (tabs ! j ! nat (idx ! j))) [ii..<D])"

definition get_conf_signature :: "'a iso_threshold_generator_scheme \<Rightarrow> int list \<Rightarrow> error + int list" where
  "get_conf_signature g space =
     copy_confs (dimNumber g) (isotopeNumbers g) (map confs (marginalResults g))
       (counter g) 0 0 space"

text \<open>The overrides \<^verbatim>\<open>virtual void get_conf_signature(int*) const {};\<close> of the fast and the
  count-only generator have empty bodies.\<close>

definition get_conf_signature_fast :: "iso_threshold_generator_fast \<Rightarrow> int list \<Rightarrow> error + int list" where
  "get_conf_signature_fast g space = Inr space"

definition get_conf_signature_cntr :: "iso_threshold_generator_fast \<Rightarrow> int list \<Rightarrow> error + int list" where
  "get_conf_signature_cntr g space = Inr space"

text \<open>The joint configuration a threshold generator stands at: the atom-count vectors
  of the current configuration of every slot, concatenated.\<close>

definition current_configuration :: "'a iso_threshold_generator_scheme \<Rightarrow> int list" where
  "current_configuration g =
     concat (map (\<lambda>ii. confs (marginalResults g ! ii) ! nat (counter g ! ii)) [0..<dimNumber g])"

definition signature_in_range :: "'a iso_threshold_generator_scheme \<Rightarrow> nat \<Rightarrow> bool" where
  "signature_in_range g n \<longleftrightarrow>
     dimNumber g \<le> length (marginalResults g) \<and> dimNumber g \<le> length (counter g) \<and>
     dimNumber g \<le> length (isotopeNumbers g) \<and>
     list_all (\<lambda>ii. 0 \<le> counter g ! ii \<and>
                    nat (counter g ! ii) < length (confs (marginalResults g ! ii)) \<and>
                    length (confs (marginalResults g ! ii) ! nat (counter g ! ii)) = isotopeNumbers g ! ii)
       [0..<dimNumber g] \<and>
     sum_list (take (dimNumber g) (isotopeNumbers g)) \<le> n"

section \<open>The ordered generator\<close>

text \<open>\<^verbatim>\<open>IsoOrderedGenerator\<close>: \<^verbatim>\<open>topConf\<close> points at a \<^verbatim>\<open>double\<close> followed by the \<^verbatim>\<open>int\<close> vector
  that \<^verbatim>\<open>getConf\<close> returns, here a pair. \<open>marginalResults_trek ! ii\<close> is the table
  \<^verbatim>\<open>marginalResults[ii]->confs()\<close> of the \<^verbatim>\<open>MarginalTrek\<close> of slot \<open>ii\<close>. The members
  \<^verbatim>\<open>get_conf_signature\<close> never mentions (the priority queue, the allocator, the cached
  tables) are the extension slot of the record.\<close>

record iso_ordered_generator = iso_generator +
  marginalResults_trek :: "int list list list"
  topConf :: "real \<times> int list"
  currentLProb :: real
  currentMass :: real
  currentEProb :: real
  ccount :: int

definition get_conf_signature_ordered ::
  "'a iso_ordered_generator_scheme \<Rightarrow> int list \<Rightarrow> error + 'a iso_ordered_generator_scheme \<times> int list" where
  "get_conf_signature_ordered g space =
     (let c = snd (topConf g) in
      if ccount g \<ge> 0 \<and> \<not> nat (ccount g) < length c then Inl OutOfRange
      else
        let c1 = (if ccount g \<ge> 0 then c[nat (ccount g) := c ! nat (ccount g) - 1] else c) in
        case copy_confs (dimNumber g) (isotopeNumbers g) (marginalResults_trek g) c1 0 0 space of
          Inl e \<Rightarrow> Inl e
        | Inr space' \<Rightarrow>
            let c2 = (if ccount g \<ge> 0 then c1[nat (ccount g) := c1 ! nat (ccount g) + 1] else c1)
            in Inr (g\<lparr>topConf := (fst (topConf g), c2)\<rparr>, space'))"

section \<open>\<^verbatim>\<open>unnormalized_logProb\<close> and the rounding mode\<close>

text \<open>The floating-point environment is the rounding direction in force, read by
  \<^verbatim>\<open>fegetround\<close> and replaced by \<^verbatim>\<open>fesetround\<close> (the four standard directions are
  supported wherever the macros \<^verbatim>\<open>FE_TOWARDZERO\<close> and \<^verbatim>\<open>FE_UPWARD\<close> are defined, so the
  calls succeed). Every \<^verbatim>\<open>double\<close> operation reads the environment at the moment it
  runs. The arithmetic itself is a parameter: \<open>fadd m\<close> and \<open>fmul m\<close> are the addition and
  the multiplication under direction \<open>m\<close>, and \<open>minuslogFactorial m\<close> is the function of that
  name in \<^verbatim>\<open>isoMath.h\<close>, evaluated while \<open>m\<close> is in force. The parameter \<^verbatim>\<open>dim\<close> is
  \<open>dim'\<close>.\<close>

datatype rounding = FE_TONEAREST | FE_DOWNWARD | FE_UPWARD | FE_TOWARDZERO

type_synonym fenv = rounding

definition fegetround :: "fenv \<Rightarrow> rounding" where
  "fegetround env = env"

definition fesetround :: "rounding \<Rightarrow> fenv \<Rightarrow> fenv" where
  "fesetround m env = m"

record fpu =
  fadd :: "rounding \<Rightarrow> real \<Rightarrow> real \<Rightarrow> real"
  fmul :: "rounding \<Rightarrow> real \<Rightarrow> real \<Rightarrow> real"
  minuslogFactorial :: "rounding \<Rightarrow> int \<Rightarrow> real"

text \<open>\<^verbatim>\<open>for(int i=0; i < dim; i++) res += minuslogFactorial(conf[i]);\<close>\<close>

function minus_loop :: "fpu \<Rightarrow> int list \<Rightarrow> nat \<Rightarrow> nat \<Rightarrow> real \<times> fenv \<Rightarrow> real \<times> fenv" where
  "minus_loop F conf dim' i (res, env) =
     (if i < dim'
      then minus_loop F conf dim' (i + 1)
             (fadd F (fegetround env) res (minuslogFactorial F (fegetround env) (conf ! i)), env)
      else (res, env))"
  by pat_completeness auto
termination
  by (relation "measure (\<lambda>(F, conf, dim', i, s). dim' - i)") auto

declare minus_loop.simps [simp del]

text \<open>\<^verbatim>\<open>for(int i=0; i < dim; i++) res += conf[i] * logProbs[i];\<close>\<close>

function plus_loop :: "fpu \<Rightarrow> int list \<Rightarrow> real list \<Rightarrow> nat \<Rightarrow> nat \<Rightarrow> real \<times> fenv \<Rightarrow> real \<times> fenv" where
  "plus_loop F conf logProbs dim' i (res, env) =
     (if i < dim'
      then plus_loop F conf logProbs dim' (i + 1)
             (fadd F (fegetround env) res
                (fmul F (fegetround env) (of_int (conf ! i)) (logProbs ! i)), env)
      else (res, env))"
  by pat_completeness auto
termination
  by (relation "measure (\<lambda>(F, conf, logProbs, dim', i, s). dim' - i)") auto

declare plus_loop.simps [simp del]

definition unnormalized_logProb ::
  "fpu \<Rightarrow> int list \<Rightarrow> real list \<Rightarrow> nat \<Rightarrow> fenv \<Rightarrow> error + real \<times> fenv" where
  "unnormalized_logProb F conf logProbs dim' env =
     (if dim' \<le> length conf \<and> dim' \<le> length logProbs then
        (let res = 0;
             curr_method = fegetround env;
             env = fesetround FE_TOWARDZERO env;
             (res, env) = minus_loop F conf dim' 0 (res, env);
             env = fesetround FE_UPWARD env;
             (res, env) = plus_loop F conf logProbs dim' 0 (res, env);
             env = fesetround curr_method env
         in Inr (res, env))
      else Inl OutOfRange)"

text \<open>The sum of the \<open>- log c\<^sub>i!\<close> terms and the sum of the \<open>c\<^sub>i * log p\<^sub>i\<close> terms, each
  accumulated from \<open>res0\<close> under one fixed direction \<open>m\<close>.\<close>

definition negative_pass :: "fpu \<Rightarrow> rounding \<Rightarrow> int list \<Rightarrow> nat \<Rightarrow> real \<Rightarrow> real" where
  "negative_pass F m conf dim' res0 =
     foldl (\<lambda>res i. fadd F m res (minuslogFactorial F m (conf ! i))) res0 [0..<dim']"

definition positive_pass :: "fpu \<Rightarrow> rounding \<Rightarrow> int list \<Rightarrow> real list \<Rightarrow> nat \<Rightarrow> real \<Rightarrow> real" where
  "positive_pass F m conf logProbs dim' res0 =
     foldl (\<lambda>res i. fadd F m res (fmul F m (of_int (conf ! i)) (logProbs ! i))) res0 [0..<dim']"

text \<open>What the two rounding directions promise, as far as the bias of the result goes:
  rounding toward zero does not lower a non-positive sum and keeps it non-positive,
  rounding upward does not lower a sum or a product, and \<^verbatim>\<open>minuslogFactorial\<close> is not
  positive.\<close>

definition directed_rounding :: "fpu \<Rightarrow> bool" where
  "directed_rounding F \<longleftrightarrow>
     (\<forall>x y. x \<le> 0 \<and> y \<le> 0 \<longrightarrow>
        x + y \<le> fadd F FE_TOWARDZERO x y \<and> fadd F FE_TOWARDZERO x y \<le> 0) \<and>
     (\<forall>x y. x + y \<le> fadd F FE_UPWARD x y) \<and>
     (\<forall>x y. x * y \<le> fmul F FE_UPWARD x y) \<and>
     (\<forall>n. minuslogFactorial F FE_TOWARDZERO n \<le> 0)"

text \<open>An arithmetic to run the function on: every result is rounded to a whole number in
  the direction asked for.\<close>

definition to_grid :: "rounding \<Rightarrow> real \<Rightarrow> real" where
  "to_grid m x =
     (case m of
        FE_TONEAREST \<Rightarrow> of_int (round x)
      | FE_DOWNWARD \<Rightarrow> of_int \<lfloor>x\<rfloor>
      | FE_UPWARD \<Rightarrow> of_int \<lceil>x\<rceil>
      | FE_TOWARDZERO \<Rightarrow> (if x \<le> 0 then of_int \<lceil>x\<rceil> else of_int \<lfloor>x\<rfloor>))"

definition grid_fpu :: fpu where
  "grid_fpu =
     \<lparr>fadd = (\<lambda>m x y. to_grid m (x + y)),
      fmul = (\<lambda>m x y. to_grid m (x * y)),
      minuslogFactorial = (\<lambda>m n. to_grid m (- of_int (n * (n - 1)) / 4))\<rparr>"

section \<open>Binary64 arithmetic\<close>

text \<open>The rounding of IEEE 754 binary64 in the default mode, to nearest with ties to even,
  on the normal range: a real \<open>x\<close> with \<open>2\<^sup>e \<le> \<bar>x\<bar> < 2\<^sup>e\<^sup>+\<^sup>1\<close> becomes the nearest multiple of
  \<open>2\<^sup>e\<^sup>-\<^sup>5\<^sup>2\<close>, and of two nearest ones the even multiple. Overflow and subnormal numbers
  are not modelled; every value below is far from both.\<close>

definition round_even :: "real \<Rightarrow> int" where
  "round_even x =
     (let f = \<lfloor>x\<rfloor>; d = x - of_int f
      in if d < 1 / 2 then f else if 1 / 2 < d then f + 1 else if even f then f else f + 1)"

definition fl :: "real \<Rightarrow> real" where
  "fl x =
     (if x = 0 then 0
      else (let e = \<lfloor>log 2 \<bar>x\<bar>\<rfloor>; u = 2 powr (of_int e - 52)
            in of_int (round_even (x / u)) * u))"

section \<open>Reference notions\<close>

text \<open>The joint configurations of a list of tables, one table index per element slot;
  the log-probability the recurrence \<open>partialX[d] = partialX[d+1] + marginal_d[counter[d]]\<close>
  gives a joint configuration, which is what \<^verbatim>\<open>recalc\<close> computes into \<^verbatim>\<open>partialLProbs[0]\<close>
  (with \<open>rnd\<close> the identity it is the exact sum of the table entries); and the
  configurations at or above a cutoff.\<close>

fun all_confs :: "marginal list \<Rightarrow> int list list" where
  "all_confs [] = [[]]"
| "all_confs (m # ms) =
     concat (map (\<lambda>c. map (\<lambda>cs. int c # cs) (all_confs ms)) [0..<length (lProbs m)])"

definition joint_lprob :: "(real \<Rightarrow> real) \<Rightarrow> marginal list \<Rightarrow> int list \<Rightarrow> real" where
  "joint_lprob rnd tables cfg =
     foldr (\<lambda>(m, c) acc. rnd (acc + lProbs m ! nat c)) (zip tables cfg) 0"

definition above_cutoff :: "(real \<Rightarrow> real) \<Rightarrow> marginal list \<Rightarrow> real \<Rightarrow> int list list" where
  "above_cutoff rnd tables L = filter (\<lambda>cfg. L \<le> joint_lprob rnd tables cfg) (all_confs tables)"

text \<open>The number of successful calls of an advance function up to its first \<open>false\<close>.\<close>

definition emissions :: "('s \<Rightarrow> error + bool \<times> 's) \<Rightarrow> nat \<Rightarrow> 's \<Rightarrow> (error + nat) option" where
  "emissions adv n g = map_option (map_sum id length) (run adv n g)"

text \<open>Two generators stand at the same point of the walk when they agree on everything
  the tests of an advance read: the counters, the partial log-probabilities, the tables,
  the bounds and the cutoff. Their partial masses and probabilities may differ; only the
  sizes of these arrays matter to the walk.\<close>

definition same_walk ::
  "'a iso_threshold_generator_scheme \<Rightarrow> 'b iso_threshold_generator_scheme \<Rightarrow> bool" where
  "same_walk g h \<longleftrightarrow>
     counter h = counter g \<and> partialLProbs h = partialLProbs g \<and>
     marginalResults h = marginalResults g \<and> maxConfsLPSum h = maxConfsLPSum g \<and>
     Lcutoff h = Lcutoff g \<and> dimNumber h = dimNumber g"

definition same_sizes ::
  "'a iso_threshold_generator_scheme \<Rightarrow> 'b iso_threshold_generator_scheme \<Rightarrow> bool" where
  "same_sizes g h \<longleftrightarrow>
     length (partialMasses h) = length (partialMasses g) \<and>
     length (partialExpProbs h) = length (partialExpProbs g)"

text \<open>The pointer invariant of the fast generator: the three table pointers stand at the
  entry after the one the counter of slot 0 names.\<close>

definition pointers_follow_counter :: "iso_threshold_generator_fast \<Rightarrow> bool" where
  "pointers_follow_counter f \<longleftrightarrow>
     counter f \<noteq> [] \<and> int (lProbs_ptr f) = counter f ! 0 + 1 \<and>
     mass_ptr f = lProbs_ptr f \<and> exp_ptr f = lProbs_ptr f"

section \<open>Concrete generators\<close>

text \<open>The doubles used as log-probabilities below: the doubles nearest to \<open>log (1/2)\<close>
  (\<^verbatim>\<open>-0.6931471805599453\<close>), to \<open>log (1/4)\<close> (\<^verbatim>\<open>-1.3862943611198906\<close>), to \<open>log (1/8)\<close>
  (\<^verbatim>\<open>-2.0794415416798357\<close>), to \<open>log (1/32)\<close> (\<^verbatim>\<open>-3.4657359027997265\<close>) and to \<open>log 2\<^sup>-\<^sup>2\<^sup>0\<close>
  (\<^verbatim>\<open>-13.862943611198906\<close>), and the double \<^verbatim>\<open>-3.465735902799726\<close>, the upper neighbour of
  the fourth.\<close>

abbreviation lg1 :: real where "lg1 \<equiv> - (6243314768165359 / 9007199254740992)"

abbreviation lg2 :: real where "lg2 \<equiv> - (6243314768165359 / 4503599627370496)"

abbreviation lg3 :: real where "lg3 \<equiv> - (4682486076124019 / 2251799813685248)"

abbreviation lg5 :: real where "lg5 \<equiv> - (7804143460206699 / 2251799813685248)"

abbreviation lg5_up :: real where "lg5_up \<equiv> - (3902071730103349 / 1125899906842624)"

abbreviation lg20 :: real where "lg20 \<equiv> - (7804143460206699 / 562949953421312)"

text \<open>One element slot with two isotopes and two atoms. The tables are sorted by
  decreasing probability; the last entry lies below every cutoff used here and is the
  entry at which a sweep over a marginal stops.\<close>

definition ex_iso :: iso where
  "ex_iso = \<lparr>dimNumber = 1, isotopeNumbers = [2], modeLProb = lg1\<rparr>"

definition ex_tables :: "marginal list" where
  "ex_tables =
     [\<lparr>confs = [[2, 0], [1, 1], [0, 2]], lProbs = [lg1, lg3, lg20],
       masses = [24, 25, 26], eProbs = [1 / 2, 1 / 8, 1 / 1048576]\<rparr>]"

definition ex_g0 :: iso_threshold_generator where
  "ex_g0 =
     \<lparr>dimNumber = 1, isotopeNumbers = [2], modeLProb = lg1,
      partialLProbs = [lg1, 0], partialMasses = [24, 0], partialExpProbs = [1 / 2, 1],
      counter = [- 1], maxConfsLPSum = [lg1], Lcutoff = - 10, marginalResults = ex_tables\<rparr>"

definition ex_g1 :: iso_threshold_generator where
  "ex_g1 = ex_g0\<lparr>counter := [0]\<rparr>"

definition ex_f0 :: iso_threshold_generator_fast where
  "ex_f0 = iso_threshold_generator.extend ex_g0 \<lparr>lProbs_ptr = 0, mass_ptr = 0, exp_ptr = 0\<rparr>"

definition ex_f1 :: iso_threshold_generator_fast where
  "ex_f1 = ex_f0\<lparr>partialMasses := [25, 0], partialExpProbs := [1 / 8, 1], counter := [0],
                 lProbs_ptr := 1, mass_ptr := 1, exp_ptr := 1\<rparr>"

definition ex_c1 :: iso_threshold_generator_fast where
  "ex_c1 = ex_f0\<lparr>counter := [0], lProbs_ptr := 1\<rparr>"

text \<open>Two element slots, cutoff \<open>- 10\<close>: four joint configurations lie above the cutoff,
  and the walk carries into slot 1 twice.\<close>

definition ex2_iso :: iso where
  "ex2_iso = \<lparr>dimNumber = 2, isotopeNumbers = [2, 2], modeLProb = lg2\<rparr>"

definition ex2_tables :: "marginal list" where
  "ex2_tables =
     [\<lparr>confs = [[2, 0], [1, 1], [0, 2]], lProbs = [lg1, lg3, lg20],
       masses = [24, 25, 26], eProbs = [1 / 2, 1 / 8, 1 / 1048576]\<rparr>,
      \<lparr>confs = [[2, 0], [1, 1], [0, 2]], lProbs = [lg1, lg3, lg20],
       masses = [2, 3, 4], eProbs = [1 / 2, 1 / 8, 1 / 1048576]\<rparr>]"

definition ex2_g0 :: iso_threshold_generator where
  "ex2_g0 =
     \<lparr>dimNumber = 2, isotopeNumbers = [2, 2], modeLProb = lg2,
      partialLProbs = [lg2, lg1, 0], partialMasses = [26, 2, 0],
      partialExpProbs = [1 / 4, 1 / 2, 1],
      counter = [- 1, 0], maxConfsLPSum = [lg1, lg2], Lcutoff = - 10,
      marginalResults = ex2_tables\<rparr>"

definition ex2_g1 :: iso_threshold_generator where
  "ex2_g1 = ex2_g0\<lparr>counter := [0, 0]\<rparr>"

definition ex2_g2 :: iso_threshold_generator where
  "ex2_g2 = ex2_g0\<lparr>partialLProbs := [- (6243314768165359 / 2251799813685248), lg1, 0],
                   partialMasses := [27, 2, 0], partialExpProbs := [1 / 16, 1 / 2, 1],
                   counter := [1, 0]\<rparr>"

definition ex2_f0 :: iso_threshold_generator_fast where
  "ex2_f0 = iso_threshold_generator.extend ex2_g0 \<lparr>lProbs_ptr = 0, mass_ptr = 0, exp_ptr = 0\<rparr>"

text \<open>Three element slots. The cutoff is the double \<^verbatim>\<open>-3.465735902799726\<close>; the joint
  configuration with table indices \<open>[0, 0, 1]\<close> has the log-probabilities \<open>lg1\<close>, \<open>lg1\<close>
  and \<open>lg3\<close> in its three slots.\<close>

definition ex3_iso :: iso where
  "ex3_iso = \<lparr>dimNumber = 3, isotopeNumbers = [2, 2, 2], modeLProb = lg3\<rparr>"

definition ex3_tables :: "marginal list" where
  "ex3_tables =
     [\<lparr>confs = [[1, 0], [0, 1]], lProbs = [lg1, lg20],
       masses = [1, 2], eProbs = [1 / 2, 1 / 1048576]\<rparr>,
      \<lparr>confs = [[1, 0], [0, 1]], lProbs = [lg1, lg20],
       masses = [1, 2], eProbs = [1 / 2, 1 / 1048576]\<rparr>,
      \<lparr>confs = [[2, 0], [1, 1], [0, 2]], lProbs = [lg1, lg3, lg20],
       masses = [12, 13, 14], eProbs = [1 / 2, 1 / 8, 1 / 1048576]\<rparr>]"

definition ex3_g0 :: iso_threshold_generator where
  "ex3_g0 =
     \<lparr>dimNumber = 3, isotopeNumbers = [2, 2, 2], modeLProb = lg3,
      partialLProbs = [lg3, lg2, lg1, 0], partialMasses = [14, 13, 12, 0],
      partialExpProbs = [1 / 8, 1 / 4, 1 / 2, 1],
      counter = [- 1, 0, 0], maxConfsLPSum = [lg1, lg2, lg3], Lcutoff = lg5_up,
      marginalResults = ex3_tables\<rparr>"

definition ex3_f0 :: iso_threshold_generator_fast where
  "ex3_f0 = iso_threshold_generator.extend ex3_g0 \<lparr>lProbs_ptr = 0, mass_ptr = 0, exp_ptr = 0\<rparr>"

definition ex3_f1 :: iso_threshold_generator_fast where
  "ex3_f1 = ex3_f0\<lparr>partialMasses := [15, 13, 12, 0],
                   partialExpProbs := [1 / 4194304, 1 / 4, 1 / 2, 1], counter := [0, 0, 0],
                   lProbs_ptr := 1, mass_ptr := 1, exp_ptr := 1\<rparr>"

definition ex3_f2 :: iso_threshold_generator_fast where
  "ex3_f2 = ex3_f0\<lparr>partialLProbs := [lg5, - (6243314768165359 / 2251799813685248), lg3, 0],
                   partialMasses := [15, 14, 13, 0],
                   partialExpProbs := [1 / 32, 1 / 16, 1 / 8, 1], counter := [0, 0, 1],
                   lProbs_ptr := 1, mass_ptr := 1, exp_ptr := 1\<rparr>"

definition ex3_f3 :: iso_threshold_generator_fast where
  "ex3_f3 = ex3_f0\<lparr>partialLProbs := [- (4682486076124019 / 281474976710656),
                                      - (1121845622404713 / 70368744177664), lg20, 0],
                   partialMasses := [15, 14, 13, 0],
                   partialExpProbs := [1 / 32, 1 / 16, 1 / 8, 1], counter := [0, 0, 2],
                   lProbs_ptr := 1, mass_ptr := 1, exp_ptr := 1\<rparr>"

text \<open>An ordered generator standing at the joint configuration with table indices
  \<open>[1, 0]\<close>; \<^verbatim>\<open>topConf\<close> holds those indices with the one at \<^verbatim>\<open>ccount\<close> raised by one.\<close>

definition ex_ordered :: iso_ordered_generator where
  "ex_ordered =
     \<lparr>dimNumber = 2, isotopeNumbers = [2, 2], modeLProb = - 3,
      partialLProbs = [], partialMasses = [], partialExpProbs = [],
      marginalResults_trek = [[[2, 0], [1, 1]], [[2, 0], [1, 1]]],
      topConf = (- 7, [1, 1]),
      currentLProb = - 5, currentMass = 27, currentEProb = exp (- 5),
      ccount = 1\<rparr>"

section \<open>Evaluation rules\<close>

lemma fl_ulp:
  assumes "2 powr of_int E \<le> \<bar>x\<bar>" "\<bar>x\<bar> < 2 powr (of_int E + 1)"
  shows "fl x = of_int (round_even (x / 2 powr (of_int E - 52))) * 2 powr (of_int E - 52)"
proof -
  from assms(1) have pos: "0 < \<bar>x\<bar>" by (smt (verit) powr_gt_zero)
  then have nz: "x \<noteq> 0" by simp
  from pos assms have "\<lfloor>log 2 \<bar>x\<bar>\<rfloor> = E"
    by (subst floor_log_eq_powr_iff) simp_all
  with nz show ?thesis by (simp add: fl_def Let_def)
qed

lemma fl_ge1:
  assumes "2 ^ n \<le> \<bar>x\<bar>" "\<bar>x\<bar> < 2 * 2 ^ n"
  shows "fl x = of_int (round_even (x / (2 ^ n / 2 ^ 52))) * (2 ^ n / 2 ^ 52)"
proof -
  have p: "2 powr real_of_int (int n) = (2::real) ^ n" by (simp add: powr_realpow)
  have q: "2 powr (real_of_int (int n) + 1) = (2::real) * 2 ^ n"
    by (simp add: powr_add powr_realpow)
  have "2 powr (real_of_int (int n) - 52) = 2 powr real_of_int (int n) / 2 powr (52::real)"
    by (rule powr_diff)
  also have "2 powr (52::real) = (2::real) ^ 52" using powr_realpow [of 2 52] by simp
  finally have u: "2 powr (real_of_int (int n) - 52) = (2::real) ^ n / 2 ^ 52" by (simp only: p)
  from assms have "2 powr real_of_int (int n) \<le> \<bar>x\<bar>" "\<bar>x\<bar> < 2 powr (real_of_int (int n) + 1)"
    by (simp_all only: p q)
  from fl_ulp [OF this] show ?thesis by (simp only: u)
qed

lemma fl_lt1:
  assumes "1 / 2 ^ n \<le> \<bar>x\<bar>" "\<bar>x\<bar> < 2 / 2 ^ n"
  shows "fl x = of_int (round_even (x / (1 / 2 ^ (52 + n)))) * (1 / 2 ^ (52 + n))"
proof -
  have p: "2 powr real_of_int (- int n) = 1 / (2::real) ^ n"
    by (simp add: powr_minus powr_realpow inverse_eq_divide)
  have "2 powr (real_of_int (- int n) + 1) = 2 powr real_of_int (- int n) * 2 powr (1::real)"
    by (rule powr_add)
  then have q: "2 powr (real_of_int (- int n) + 1) = 2 / (2::real) ^ n" by (simp only: p) simp
  have "2 powr (real_of_int (- int n) - 52) = 2 powr real_of_int (- int n) / 2 powr (52::real)"
    by (rule powr_diff)
  also have "2 powr (52::real) = (2::real) ^ 52" using powr_realpow [of 2 52] by simp
  finally have "2 powr (real_of_int (- int n) - 52) = 1 / (2::real) ^ n / 2 ^ 52" by (simp only: p)
  also have "\<dots> = 1 / (2::real) ^ (52 + n)" by (simp add: power_add)
  finally have u: "2 powr (real_of_int (- int n) - 52) = 1 / (2::real) ^ (52 + n)" .
  from assms have "2 powr real_of_int (- int n) \<le> \<bar>x\<bar>" "\<bar>x\<bar> < 2 powr (real_of_int (- int n) + 1)"
    by (simp_all only: p q)
  from fl_ulp [OF this] show ?thesis by (simp only: u)
qed

lemma fl_0: "fl 0 = 0"
  by (simp add: fl_def)

text \<open>The roundings of the sums and products that occur in the runs below, each checked
  against the definition of \<open>fl\<close>.\<close>

lemma fl_1: "fl (- (6243314768165359 / 9007199254740992)) = - (6243314768165359 / 9007199254740992)"
  by (subst fl_lt1 [where n = 1]) (simp_all add: round_even_def Let_def)

lemma fl_2: "fl (- (6243314768165359 / 4503599627370496)) = - (6243314768165359 / 4503599627370496)"
  by (subst fl_ge1 [where n = 0]) (simp_all add: round_even_def Let_def)

lemma fl_3: "fl (- (4682486076124019 / 2251799813685248)) = - (4682486076124019 / 2251799813685248)"
  by (subst fl_ge1 [where n = 1]) (simp_all add: round_even_def Let_def)

lemma fl_4: "fl (- (18729944304496077 / 9007199254740992)) = - (4682486076124019 / 2251799813685248)"
  by (subst fl_ge1 [where n = 1]) (simp_all add: round_even_def Let_def)

lemma fl_5: "fl (- (24973259072661435 / 9007199254740992)) = - (6243314768165359 / 2251799813685248)"
  by (subst fl_ge1 [where n = 1]) (simp_all add: round_even_def Let_def)

lemma fl_6: "fl (- (15608286920413397 / 4503599627370496)) = - (3902071730103349 / 1125899906842624)"
  by (subst fl_ge1 [where n = 1]) (simp_all add: round_even_def Let_def)

lemma fl_7: "fl (- (31216573840826795 / 9007199254740992)) = - (7804143460206699 / 2251799813685248)"
  by (subst fl_ge1 [where n = 1]) (simp_all add: round_even_def Let_def)

lemma fl_8: "fl (- (4682486076124019 / 1125899906842624)) = - (4682486076124019 / 1125899906842624)"
  by (subst fl_ge1 [where n = 2]) (simp_all add: round_even_def Let_def)

lemma fl_9: "fl (- (7804143460206699 / 562949953421312)) = - (7804143460206699 / 562949953421312)"
  by (subst fl_ge1 [where n = 3]) (simp_all add: round_even_def Let_def)

lemma fl_10: "fl (- (131109610131472543 / 9007199254740992)) = - (4097175316608517 / 281474976710656)"
  by (subst fl_ge1 [where n = 3]) (simp_all add: round_even_def Let_def)

lemma fl_11: "fl (- (68676462449818951 / 4503599627370496)) = - (8584557806227369 / 562949953421312)"
  by (subst fl_ge1 [where n = 3]) (simp_all add: round_even_def Let_def)

lemma fl_12: "fl (- (137352924899637903 / 9007199254740992)) = - (8584557806227369 / 562949953421312)"
  by (subst fl_ge1 [where n = 3]) (simp_all add: round_even_def Let_def)

lemma fl_13: "fl (- (35899059916950815 / 2251799813685248)) = - (1121845622404713 / 70368744177664)"
  by (subst fl_ge1 [where n = 3]) (simp_all add: round_even_def Let_def)

lemma fl_14: "fl (- (37459888608992155 / 2251799813685248)) = - (4682486076124019 / 281474976710656)"
  by (subst fl_ge1 [where n = 4]) (simp_all add: round_even_def Let_def)

lemma fl_15: "fl (- (149839554435968623 / 9007199254740992)) = - (4682486076124019 / 281474976710656)"
  by (subst fl_ge1 [where n = 4]) (simp_all add: round_even_def Let_def)

lemma fl_16: "fl (- (7804143460206699 / 281474976710656)) = - (7804143460206699 / 281474976710656)"
  by (subst fl_ge1 [where n = 4]) (simp_all add: round_even_def Let_def)

lemma fl_17: "fl (- (255975905494779727 / 9007199254740992)) = - (3999623523355933 / 140737488355328)"
  by (subst fl_ge1 [where n = 4]) (simp_all add: round_even_def Let_def)

lemma fl_18: "fl (- (15998494093423733 / 562949953421312)) = - (3999623523355933 / 140737488355328)"
  by (subst fl_ge1 [where n = 4]) (simp_all add: round_even_def Let_def)

lemma fl_19: "fl (- (16778908439444403 / 562949953421312)) = - (4194727109861101 / 140737488355328)"
  by (subst fl_ge1 [where n = 4]) (simp_all add: round_even_def Let_def)

lemma fl_20: "fl (- (23412430380620097 / 562949953421312)) = - (365819224697189 / 8796093022208)"
  by (subst fl_ge1 [where n = 5]) (simp_all add: round_even_def Let_def)

lemma fl_21: "fl (1 / 8388608) = 1 / 8388608"
  by (subst fl_lt1 [where n = 23]) (simp_all add: round_even_def Let_def)

lemma fl_22: "fl (1 / 4194304) = 1 / 4194304"
  by (subst fl_lt1 [where n = 22]) (simp_all add: round_even_def Let_def)

lemma fl_23: "fl (1 / 2097152) = 1 / 2097152"
  by (subst fl_lt1 [where n = 21]) (simp_all add: round_even_def Let_def)

lemma fl_24: "fl (1 / 1048576) = 1 / 1048576"
  by (subst fl_lt1 [where n = 20]) (simp_all add: round_even_def Let_def)

lemma fl_25: "fl (1 / 64) = 1 / 64"
  by (subst fl_lt1 [where n = 6]) (simp_all add: round_even_def Let_def)

lemma fl_26: "fl (1 / 32) = 1 / 32"
  by (subst fl_lt1 [where n = 5]) (simp_all add: round_even_def Let_def)

lemma fl_27: "fl (1 / 16) = 1 / 16"
  by (subst fl_lt1 [where n = 4]) (simp_all add: round_even_def Let_def)

lemma fl_28: "fl (1 / 8) = 1 / 8"
  by (subst fl_lt1 [where n = 3]) (simp_all add: round_even_def Let_def)

lemma fl_29: "fl (1 / 4) = 1 / 4"
  by (subst fl_lt1 [where n = 2]) (simp_all add: round_even_def Let_def)

lemma fl_30: "fl (1 / 2) = 1 / 2"
  by (subst fl_lt1 [where n = 1]) (simp_all add: round_even_def Let_def)

lemma fl_31: "fl (2) = 2"
  by (subst fl_ge1 [where n = 1]) (simp_all add: round_even_def Let_def)

lemma fl_32: "fl (3) = 3"
  by (subst fl_ge1 [where n = 1]) (simp_all add: round_even_def Let_def)

lemma fl_33: "fl (12) = 12"
  by (subst fl_ge1 [where n = 3]) (simp_all add: round_even_def Let_def)

lemma fl_34: "fl (13) = 13"
  by (subst fl_ge1 [where n = 3]) (simp_all add: round_even_def Let_def)

lemma fl_35: "fl (14) = 14"
  by (subst fl_ge1 [where n = 3]) (simp_all add: round_even_def Let_def)

lemma fl_36: "fl (15) = 15"
  by (subst fl_ge1 [where n = 3]) (simp_all add: round_even_def Let_def)

lemma fl_37: "fl (24) = 24"
  by (subst fl_ge1 [where n = 4]) (simp_all add: round_even_def Let_def)

lemma fl_38: "fl (25) = 25"
  by (subst fl_ge1 [where n = 4]) (simp_all add: round_even_def Let_def)

lemma fl_39: "fl (26) = 26"
  by (subst fl_ge1 [where n = 4]) (simp_all add: round_even_def Let_def)

lemma fl_40: "fl (27) = 27"
  by (subst fl_ge1 [where n = 4]) (simp_all add: round_even_def Let_def)

lemma fl_41: "fl (28) = 28"
  by (subst fl_ge1 [where n = 4]) (simp_all add: round_even_def Let_def)

lemma fl_42: "fl (29) = 29"
  by (subst fl_ge1 [where n = 4]) (simp_all add: round_even_def Let_def)

lemmas fl_eval = fl_0 fl_1 fl_2 fl_3 fl_4 fl_5 fl_6 fl_7 fl_8 fl_9 fl_10 fl_11 fl_12 fl_13 fl_14 fl_15 fl_16 fl_17 fl_18 fl_19 fl_20 fl_21 fl_22 fl_23 fl_24 fl_25 fl_26 fl_27 fl_28 fl_29 fl_30 fl_31 fl_32 fl_33 fl_34 fl_35 fl_36 fl_37 fl_38 fl_39 fl_40 fl_41 fl_42

lemmas gen_eval =
  advanceToNextConfiguration_fast_def advanceToNextConfiguration_cntr_def
  advanceToNextConfiguration_def hot_in_range_def hot_step_def hot_accept_in_range_def
  hot_accept_def hot_step_cntr_def base_in_range_def base_step_def accept_in_range_def
  accept_step_def carry.simps carry_cntr.simps carry_in_range_def carry_step_def carry_test_def
  recalc.simps recalc_cntr.simps recalc_in_range_def recalc_body_def
  recalc_cntr_in_range_def recalc_cntr_body_def iso_threshold_generator.extend_def

lemmas ex_defs = ex_iso_def ex_tables_def ex_g0_def ex_g1_def ex_f0_def ex_f1_def ex_c1_def
  ex2_iso_def ex2_tables_def ex2_g0_def ex2_g1_def ex2_g2_def ex2_f0_def
  ex3_iso_def ex3_tables_def ex3_g0_def ex3_f0_def ex3_f1_def ex3_f2_def ex3_f3_def

lemma construct_ex: "IsoThresholdGenerator fl ex_iso ex_tables (exp (- 10)) True = Inr ex_g0"
  by (simp add: IsoThresholdGenerator_def threshold_cutoff_def gen_eval ex_defs fl_eval)

lemma construct_ex_fast:
  "IsoThresholdGeneratorFast fl ex_iso ex_tables (exp (- 10)) True = Inr ex_f0"
  by (simp add: IsoThresholdGeneratorFast_def construct_ex) (simp add: ex_defs)

lemma construct_ex2: "IsoThresholdGenerator fl ex2_iso ex2_tables (exp (- 10)) True = Inr ex2_g0"
  by (simp add: IsoThresholdGenerator_def threshold_cutoff_def gen_eval ex_defs fl_eval
        numeral_2_eq_2)

lemma construct_ex2_fast:
  "IsoThresholdGeneratorFast fl ex2_iso ex2_tables (exp (- 10)) True = Inr ex2_f0"
  by (simp add: IsoThresholdGeneratorFast_def construct_ex2) (simp add: ex_defs)

lemma construct_ex3: "IsoThresholdGenerator fl ex3_iso ex3_tables (exp lg5_up) True = Inr ex3_g0"
  by (simp add: IsoThresholdGenerator_def threshold_cutoff_def gen_eval ex_defs fl_eval
        numeral_3_eq_3)

lemma construct_ex3_fast:
  "IsoThresholdGeneratorFast fl ex3_iso ex3_tables (exp lg5_up) True = Inr ex3_f0"
  by (simp add: IsoThresholdGeneratorFast_def construct_ex3) (simp add: ex_defs)

lemma advance_ex_base: "advanceToNextConfiguration fl id ex_g0 = Inr (True, ex_g1)"
  by (simp add: gen_eval ex_defs fl_eval)

lemma advance_ex_fast: "advanceToNextConfiguration_fast fl id ex_f0 = Inr (True, ex_f1)"
  by (simp add: gen_eval ex_defs fl_eval)

lemma advance_ex_cntr: "advanceToNextConfiguration_cntr fl id ex_f0 = Inr (True, ex_c1)"
  by (simp add: gen_eval ex_defs fl_eval)

lemma advance_ex3_first: "advanceToNextConfiguration_fast fl id ex3_f0 = Inr (True, ex3_f1)"
  by (simp add: gen_eval ex_defs fl_eval)

lemma advance_ex3_second: "advanceToNextConfiguration_fast fl id ex3_f1 = Inr (True, ex3_f2)"
  by (simp add: gen_eval ex_defs fl_eval)

lemma advance_ex3_third: "advanceToNextConfiguration_fast fl id ex3_f2 = Inr (False, ex3_f3)"
  by (simp add: gen_eval ex_defs fl_eval)

lemma advance_ex2_first: "advanceToNextConfiguration fl id ex2_g0 = Inr (True, ex2_g1)"
  by (simp add: gen_eval ex_defs fl_eval)

lemma advance_ex2_second: "advanceToNextConfiguration fl id ex2_g1 = Inr (True, ex2_g2)"
  by (simp add: gen_eval ex_defs fl_eval)

section \<open>Facts about \<^verbatim>\<open>recalc\<close> and the carry loop\<close>

lemma nth0_upd0: "Suc 0 < length xs \<Longrightarrow> xs[0 := v] ! 0 = v"
  by (cases xs) simp_all

lemma recalc_body_fields [simp]:
  "counter (recalc_body rnd i g) = counter g"
  "marginalResults (recalc_body rnd i g) = marginalResults g"
  "maxConfsLPSum (recalc_body rnd i g) = maxConfsLPSum g"
  "Lcutoff (recalc_body rnd i g) = Lcutoff g"
  "dimNumber (recalc_body rnd i g) = dimNumber g"
  by (simp_all add: recalc_body_def)

lemma recalc_fields:
  "recalc rnd idx g = Inr g' \<Longrightarrow>
     counter g' = counter g \<and> marginalResults g' = marginalResults g \<and>
     maxConfsLPSum g' = maxConfsLPSum g \<and> Lcutoff g' = Lcutoff g \<and> dimNumber g' = dimNumber g"
proof (induction rnd idx g rule: recalc.induct)
  case (1 rnd idx g)
  show ?case
  proof (cases "idx \<ge> 0 \<and> recalc_in_range (nat idx) g")
    case True
    with "1.prems" have "recalc rnd (idx - 1) (recalc_body rnd (nat idx) g) = Inr g'"
      by (simp add: recalc.simps [of rnd idx g])
    with "1.IH" True show ?thesis by simp
  next
    case False
    with "1.prems" show ?thesis
      by (simp add: recalc.simps [of rnd idx g] split: if_splits)
  qed
qed

lemma recalc_error: "recalc rnd idx g = Inl e \<Longrightarrow> e = OutOfRange"
proof (induction rnd idx g rule: recalc.induct)
  case (1 rnd idx g)
  show ?case
  proof (cases "idx \<ge> 0 \<and> recalc_in_range (nat idx) g")
    case True
    with "1.prems" have "recalc rnd (idx - 1) (recalc_body rnd (nat idx) g) = Inl e"
      by (simp add: recalc.simps [of rnd idx g])
    with "1.IH" True show ?thesis by simp
  next
    case False
    with "1.prems" show ?thesis
      by (simp add: recalc.simps [of rnd idx g] split: if_splits)
  qed
qed

lemma recalc_ptrs:
  fixes g :: iso_threshold_generator_fast
  shows "recalc rnd idx g = Inr g' \<Longrightarrow>
     lProbs_ptr g' = lProbs_ptr g \<and> mass_ptr g' = mass_ptr g \<and> exp_ptr g' = exp_ptr g"
proof (induction rnd idx g rule: recalc.induct)
  case (1 rnd idx g)
  show ?case
  proof (cases "idx \<ge> 0 \<and> recalc_in_range (nat idx) g")
    case True
    with "1.prems" have "recalc rnd (idx - 1) (recalc_body rnd (nat idx) g) = Inr g'"
      by (simp add: recalc.simps [of rnd idx g])
    with "1.IH" True show ?thesis by (simp add: recalc_body_def)
  next
    case False
    with "1.prems" show ?thesis
      by (simp add: recalc.simps [of rnd idx g] split: if_splits)
  qed
qed

lemma recalc_cntr_ptr:
  fixes g :: iso_threshold_generator_fast
  shows "recalc_cntr rnd idx g = Inr g' \<Longrightarrow> lProbs_ptr g' = lProbs_ptr g"
proof (induction rnd idx g rule: recalc_cntr.induct)
  case (1 rnd idx g)
  show ?case
  proof (cases "idx \<ge> 0 \<and> recalc_cntr_in_range (nat idx) g")
    case True
    with "1.prems" have "recalc_cntr rnd (idx - 1) (recalc_cntr_body rnd (nat idx) g) = Inr g'"
      by (simp add: recalc_cntr.simps [of rnd idx g])
    with "1.IH" True show ?thesis by (simp add: recalc_cntr_body_def)
  next
    case False
    with "1.prems" show ?thesis
      by (simp add: recalc_cntr.simps [of rnd idx g] split: if_splits)
  qed
qed

lemma carry_step_fields [simp]:
  "marginalResults (carry_step rnd i g) = marginalResults g"
  "maxConfsLPSum (carry_step rnd i g) = maxConfsLPSum g"
  "Lcutoff (carry_step rnd i g) = Lcutoff g"
  "dimNumber (carry_step rnd i g) = dimNumber g"
  "counter (carry_step rnd i g) = (counter g)[i := 0, i + 1 := (counter g)[i := 0] ! (i + 1) + 1]"
  by (simp_all add: carry_step_def Let_def)

lemma accept_step_fields [simp]:
  "marginalResults (accept_step rnd i g) = marginalResults g"
  "maxConfsLPSum (accept_step rnd i g) = maxConfsLPSum g"
  "Lcutoff (accept_step rnd i g) = Lcutoff g"
  "dimNumber (accept_step rnd i g) = dimNumber g"
  "counter (accept_step rnd i g) = counter g"
  "partialLProbs (accept_step rnd i g) = partialLProbs g"
  by (simp_all add: accept_step_def)

lemma extend_fields [simp]:
  "counter (iso_threshold_generator.extend b x) = counter b"
  "partialLProbs (iso_threshold_generator.extend b x) = partialLProbs b"
  "partialMasses (iso_threshold_generator.extend b x) = partialMasses b"
  "partialExpProbs (iso_threshold_generator.extend b x) = partialExpProbs b"
  "marginalResults (iso_threshold_generator.extend b x) = marginalResults b"
  "maxConfsLPSum (iso_threshold_generator.extend b x) = maxConfsLPSum b"
  "Lcutoff (iso_threshold_generator.extend b x) = Lcutoff b"
  "dimNumber (iso_threshold_generator.extend b x) = dimNumber b"
  by (cases b, simp add: iso_threshold_generator.extend_def)+

lemma extend_ptrs [simp]:
  "lProbs_ptr (iso_threshold_generator.extend b \<lparr>lProbs_ptr = p, mass_ptr = q, exp_ptr = r\<rparr>) = p"
  "mass_ptr (iso_threshold_generator.extend b \<lparr>lProbs_ptr = p, mass_ptr = q, exp_ptr = r\<rparr>) = q"
  "exp_ptr (iso_threshold_generator.extend b \<lparr>lProbs_ptr = p, mass_ptr = q, exp_ptr = r\<rparr>) = r"
  by (cases b, simp add: iso_threshold_generator.extend_def)+

lemma constructor_ok:
  assumes "IsoThresholdGenerator rnd i tables threshold absolute = Inr g"
  shows "Lcutoff g = threshold_cutoff threshold absolute (modeLProb i) \<and> 0 < threshold \<and>
         counter g \<noteq> [] \<and> counter g ! 0 = - 1"
proof -
  let ?g0 = "\<lparr>dimNumber = dimNumber i, isotopeNumbers = isotopeNumbers i, modeLProb = modeLProb i,
            partialLProbs = replicate (dimNumber i) 0 @ [0],
            partialMasses = replicate (dimNumber i) 0 @ [0],
            partialExpProbs = replicate (dimNumber i) 0 @ [1],
            counter = replicate (dimNumber i) 0,
            maxConfsLPSum = cumulative_sums rnd 0
                              (map (\<lambda>m. lProbs m ! 0) (take (dimNumber i) tables)),
            Lcutoff = threshold_cutoff threshold absolute (modeLProb i),
            marginalResults = tables\<rparr>"
  from assms have pos: "0 < threshold" and D: "dimNumber i \<noteq> 0"
    by (simp_all add: IsoThresholdGenerator_def split: if_splits)
  from assms obtain g1 where r: "recalc rnd (int (dimNumber i) - 1) ?g0 = Inr g1"
    and g: "g = g1\<lparr>counter := (counter g1)[0 := - 1]\<rparr>"
    by (auto simp: IsoThresholdGenerator_def split: if_splits sum.splits)
  from recalc_fields [OF r] have "Lcutoff g1 = threshold_cutoff threshold absolute (modeLProb i)"
    and "counter g1 = replicate (dimNumber i) 0"
    by simp_all
  with g D pos show ?thesis by (cases "dimNumber i") simp_all
qed

section \<open>The three walks agree\<close>

lemma recalc_in_range_cong:
  "same_walk g h \<Longrightarrow> same_sizes g h \<Longrightarrow> recalc_in_range i h = recalc_in_range i g"
  by (simp add: same_walk_def same_sizes_def recalc_in_range_def)

lemma recalc_body_walk:
  "same_walk g h \<Longrightarrow> same_walk (recalc_body rnd i g) (recalc_body rnd i h)"
  by (simp add: same_walk_def recalc_body_def)

lemma recalc_body_sizes:
  "same_sizes g h \<Longrightarrow> same_sizes (recalc_body rnd i g) (recalc_body rnd i h)"
  by (simp add: same_sizes_def recalc_body_def)

lemma recalc_sim:
  "recalc rnd idx g = Inr g' \<Longrightarrow> same_walk g h \<Longrightarrow> same_sizes g h \<Longrightarrow>
     \<exists>h'. recalc rnd idx h = Inr h' \<and> same_walk g' h' \<and> same_sizes g' h'"
proof (induction rnd idx g arbitrary: h rule: recalc.induct)
  case (1 rnd idx g)
  show ?case
  proof (cases "idx \<ge> 0")
    case False
    with "1.prems" show ?thesis by (simp add: recalc.simps [of rnd idx])
  next
    case True
    with "1.prems"(1) have r: "recalc_in_range (nat idx) g"
      and c: "recalc rnd (idx - 1) (recalc_body rnd (nat idx) g) = Inr g'"
      by (simp_all add: recalc.simps [of rnd idx g] split: if_splits)
    from r "1.prems" have rh: "recalc_in_range (nat idx) h" by (simp add: recalc_in_range_cong)
    from "1.IH" [OF True r c recalc_body_walk [OF "1.prems"(2)] recalc_body_sizes [OF "1.prems"(3)]]
    obtain h' where "recalc rnd (idx - 1) (recalc_body rnd (nat idx) h) = Inr h'"
      and "same_walk g' h'" "same_sizes g' h'" by blast
    with True rh show ?thesis by (simp add: recalc.simps [of rnd idx h])
  qed
qed

lemma recalc_cntr_sim:
  "recalc rnd idx g = Inr g' \<Longrightarrow> same_walk g h \<Longrightarrow>
     \<exists>h'. recalc_cntr rnd idx h = Inr h' \<and> same_walk g' h'"
proof (induction rnd idx g arbitrary: h rule: recalc.induct)
  case (1 rnd idx g)
  show ?case
  proof (cases "idx \<ge> 0")
    case False
    with "1.prems" show ?thesis
      by (simp add: recalc.simps [of rnd idx] recalc_cntr.simps [of rnd idx])
  next
    case True
    with "1.prems"(1) have r: "recalc_in_range (nat idx) g"
      and c: "recalc rnd (idx - 1) (recalc_body rnd (nat idx) g) = Inr g'"
      by (simp_all add: recalc.simps [of rnd idx g] split: if_splits)
    from r "1.prems"(2) have rh: "recalc_cntr_in_range (nat idx) h"
      by (simp add: same_walk_def recalc_in_range_def recalc_cntr_in_range_def)
    from "1.prems"(2) have w: "same_walk (recalc_body rnd (nat idx) g) (recalc_cntr_body rnd (nat idx) h)"
      by (simp add: same_walk_def recalc_body_def recalc_cntr_body_def)
    from "1.IH" [OF True r c w]
    obtain h' where "recalc_cntr rnd (idx - 1) (recalc_cntr_body rnd (nat idx) h) = Inr h'"
      and "same_walk g' h'" by blast
    with True rh show ?thesis by (simp add: recalc_cntr.simps [of rnd idx h])
  qed
qed

lemma carry_in_range_cong: "same_walk g h \<Longrightarrow> carry_in_range i h = carry_in_range i g"
  by (simp add: same_walk_def carry_in_range_def)

lemma carry_step_walk: "same_walk g h \<Longrightarrow> same_walk (carry_step rnd i g) (carry_step rnd i h)"
  by (simp add: same_walk_def carry_step_def Let_def)

lemma carry_step_sizes: "same_sizes g h \<Longrightarrow> same_sizes (carry_step rnd i g) (carry_step rnd i h)"
  by (simp add: same_sizes_def carry_step_def Let_def)

lemma carry_test_cong: "same_walk g h \<Longrightarrow> carry_test rnd i h = carry_test rnd i g"
  by (simp add: same_walk_def carry_test_def)

lemma accept_in_range_cong:
  "same_walk g h \<Longrightarrow> same_sizes g h \<Longrightarrow> accept_in_range i h = accept_in_range i g"
  by (simp add: same_walk_def same_sizes_def accept_in_range_def)

lemma accept_step_walk: "same_walk g h \<Longrightarrow> same_walk (accept_step rnd i g) (accept_step rnd i h)"
  by (simp add: same_walk_def accept_step_def)

lemma accept_step_walk_left: "same_walk g h \<Longrightarrow> same_walk (accept_step rnd i g) h"
  by (simp add: same_walk_def accept_step_def)

lemma accept_step_sizes: "same_sizes g h \<Longrightarrow> same_sizes (accept_step rnd i g) (accept_step rnd i h)"
  by (simp add: same_sizes_def accept_step_def)

lemma carry_sim:
  "carry rnd ts idx g = Inr (b, g') \<Longrightarrow> same_walk g h \<Longrightarrow> same_sizes g h \<Longrightarrow>
     \<exists>h'. carry rnd ts' idx h = Inr (b, h') \<and> (b \<longrightarrow> same_walk g' h' \<and> same_sizes g' h')"
proof (induction rnd ts idx g arbitrary: h rule: carry.induct)
  case (1 rnd ts idx g)
  from "1.prems"(2) have D: "dimNumber h = dimNumber g" by (simp add: same_walk_def)
  show ?case
  proof (cases "idx < dimNumber g - 1")
    case False
    with "1.prems"(1) D show ?thesis
      by (simp add: carry.simps [of rnd ts idx g] carry.simps [of rnd ts' idx h])
  next
    case lt: True
    let ?g1 = "carry_step rnd idx g" and ?h1 = "carry_step rnd idx h"
    from lt "1.prems"(1) have inr: "carry_in_range idx g"
      by (simp add: carry.simps [of rnd ts idx g] split: if_splits)
    with "1.prems"(2) have inrh: "carry_in_range idx h" by (simp add: carry_in_range_cong)
    have w1: "same_walk ?g1 ?h1" using "1.prems"(2) by (rule carry_step_walk)
    have s1: "same_sizes ?g1 ?h1" using "1.prems"(3) by (rule carry_step_sizes)
    show ?thesis
    proof (cases "carry_test rnd idx ?g1")
      case True
      with w1 have th: "carry_test rnd idx ?h1" by (simp add: carry_test_cong)
      from lt inr True "1.prems"(1) have a: "accept_in_range (idx + 1) ?g1"
        and r: "recalc rnd (int idx) (accept_step rnd (idx + 1) ?g1) = Inr g'" and b: "b"
        by (auto simp: carry.simps [of rnd ts idx g] split: if_splits sum.splits)
      from a w1 s1 have ah: "accept_in_range (idx + 1) ?h1" by (simp add: accept_in_range_cong)
      from recalc_sim [OF r accept_step_walk [OF w1] accept_step_sizes [OF s1]]
      obtain h' where "recalc rnd (int idx) (accept_step rnd (idx + 1) ?h1) = Inr h'"
        and "same_walk g' h'" "same_sizes g' h'" by blast
      with lt D inrh th ah b show ?thesis
        by (simp add: carry.simps [of rnd ts' idx h])
    next
      case False
      with w1 have th: "\<not> carry_test rnd idx ?h1" by (simp add: carry_test_cong)
      from lt inr False "1.prems"(1) have c: "carry rnd ts (idx + 1) ?g1 = Inr (b, g')"
        by (simp add: carry.simps [of rnd ts idx g])
      from "1.IH" [OF lt _ False c w1 s1] inr
      obtain h' where "carry rnd ts' (idx + 1) ?h1 = Inr (b, h')"
        and "b \<longrightarrow> same_walk g' h' \<and> same_sizes g' h'" by auto
      with lt D inrh th show ?thesis
        by (simp add: carry.simps [of rnd ts' idx h])
    qed
  qed
qed

lemma carry_cntr_sim:
  "carry rnd ts idx g = Inr (b, g') \<Longrightarrow> same_walk g h \<Longrightarrow>
     \<exists>h'. carry_cntr rnd ts' idx h = Inr (b, h') \<and> (b \<longrightarrow> same_walk g' h')"
proof (induction rnd ts idx g arbitrary: h rule: carry.induct)
  case (1 rnd ts idx g)
  from "1.prems"(2) have D: "dimNumber h = dimNumber g" by (simp add: same_walk_def)
  show ?case
  proof (cases "idx < dimNumber g - 1")
    case False
    with "1.prems"(1) D show ?thesis
      by (simp add: carry.simps [of rnd ts idx g] carry_cntr.simps [of rnd ts' idx h])
  next
    case lt: True
    let ?g1 = "carry_step rnd idx g" and ?h1 = "carry_step rnd idx h"
    from lt "1.prems"(1) have inr: "carry_in_range idx g"
      by (simp add: carry.simps [of rnd ts idx g] split: if_splits)
    with "1.prems"(2) have inrh: "carry_in_range idx h" by (simp add: carry_in_range_cong)
    have w1: "same_walk ?g1 ?h1" using "1.prems"(2) by (rule carry_step_walk)
    show ?thesis
    proof (cases "carry_test rnd idx ?g1")
      case True
      with w1 have th: "carry_test rnd idx ?h1" by (simp add: carry_test_cong)
      from lt inr True "1.prems"(1) have
        r: "recalc rnd (int idx) (accept_step rnd (idx + 1) ?g1) = Inr g'" and b: "b"
        by (auto simp: carry.simps [of rnd ts idx g] split: if_splits sum.splits)
      from recalc_cntr_sim [OF r accept_step_walk_left [OF w1]]
      obtain h' where "recalc_cntr rnd (int idx) ?h1 = Inr h'" and "same_walk g' h'" by blast
      with lt D inrh th b show ?thesis
        by (simp add: carry_cntr.simps [of rnd ts' idx h])
    next
      case False
      with w1 have th: "\<not> carry_test rnd idx ?h1" by (simp add: carry_test_cong)
      from lt inr False "1.prems"(1) have c: "carry rnd ts (idx + 1) ?g1 = Inr (b, g')"
        by (simp add: carry.simps [of rnd ts idx g])
      from "1.IH" [OF lt _ False c w1] inr
      obtain h' where "carry_cntr rnd ts' (idx + 1) ?h1 = Inr (b, h')"
        and "b \<longrightarrow> same_walk g' h'" by auto
      with lt D inrh th show ?thesis
        by (simp add: carry_cntr.simps [of rnd ts' idx h])
    qed
  qed
qed

lemma carry_counter0:
  "carry rnd ts idx g = Inr (True, g') \<Longrightarrow> idx = 0 \<or> (counter g \<noteq> [] \<and> counter g ! 0 = 0) \<Longrightarrow>
     counter g' \<noteq> [] \<and> counter g' ! 0 = 0"
proof (induction rnd ts idx g rule: carry.induct)
  case (1 rnd ts idx g)
  from "1.prems"(1) have lt: "idx < dimNumber g - 1" and inr: "carry_in_range idx g"
    by (simp_all add: carry.simps [of rnd ts idx g] split: if_splits)
  let ?g1 = "carry_step rnd idx g"
  from inr have len: "idx + 1 < length (counter g)" by (simp add: carry_in_range_def)
  have z: "counter ?g1 \<noteq> [] \<and> counter ?g1 ! 0 = 0"
  proof (cases "idx = 0")
    case True
    with len show ?thesis by (cases "counter g") auto
  next
    case False
    with "1.prems"(2) len show ?thesis by auto
  qed
  show ?case
  proof (cases "carry_test rnd idx ?g1")
    case True
    with lt inr "1.prems"(1) have
      r: "recalc rnd (int idx) (accept_step rnd (idx + 1) ?g1) = Inr g'"
      by (auto simp: carry.simps [of rnd ts idx g] split: if_splits sum.splits)
    from recalc_fields [OF r] z show ?thesis by simp
  next
    case False
    with lt inr "1.prems"(1) have c: "carry rnd ts (idx + 1) ?g1 = Inr (True, g')"
      by (simp add: carry.simps [of rnd ts idx g])
    from "1.IH" [OF lt _ False c] inr z show ?thesis by simp
  qed
qed

lemma carry_ptrs:
  fixes g :: iso_threshold_generator_fast
  shows "carry rnd ts idx g = Inr (True, g') \<Longrightarrow>
     lProbs_ptr g' = lProbs_ptr g \<and> mass_ptr g' = mass_ptr g \<and> exp_ptr g' = exp_ptr g"
proof (induction rnd ts idx g rule: carry.induct)
  case (1 rnd ts idx g)
  from "1.prems"(1) have lt: "idx < dimNumber g - 1" and inr: "carry_in_range idx g"
    by (simp_all add: carry.simps [of rnd ts idx g] split: if_splits)
  let ?g1 = "carry_step rnd idx g"
  have p: "lProbs_ptr ?g1 = lProbs_ptr g \<and> mass_ptr ?g1 = mass_ptr g \<and> exp_ptr ?g1 = exp_ptr g"
    by (simp add: carry_step_def Let_def)
  show ?case
  proof (cases "carry_test rnd idx ?g1")
    case True
    with lt inr "1.prems"(1) have
      r: "recalc rnd (int idx) (accept_step rnd (idx + 1) ?g1) = Inr g'"
      by (auto simp: carry.simps [of rnd ts idx g] split: if_splits sum.splits)
    from recalc_ptrs [OF r] p show ?thesis by (simp add: accept_step_def)
  next
    case False
    with lt inr "1.prems"(1) have c: "carry rnd ts (idx + 1) ?g1 = Inr (True, g')"
      by (simp add: carry.simps [of rnd ts idx g])
    from "1.IH" [OF lt _ False c] inr p show ?thesis by simp
  qed
qed

lemma carry_cntr_ptr:
  fixes g :: iso_threshold_generator_fast
  shows "carry_cntr rnd ts idx g = Inr (True, g') \<Longrightarrow> lProbs_ptr g' = lProbs_ptr g"
proof (induction rnd ts idx g rule: carry_cntr.induct)
  case (1 rnd ts idx g)
  from "1.prems"(1) have lt: "idx < dimNumber g - 1" and inr: "carry_in_range idx g"
    by (simp_all add: carry_cntr.simps [of rnd ts idx g] split: if_splits)
  let ?g1 = "carry_step rnd idx g"
  have p: "lProbs_ptr ?g1 = lProbs_ptr g" by (simp add: carry_step_def Let_def)
  show ?case
  proof (cases "carry_test rnd idx ?g1")
    case True
    with lt inr "1.prems"(1) have r: "recalc_cntr rnd (int idx) ?g1 = Inr g'"
      by (auto simp: carry_cntr.simps [of rnd ts idx g] split: if_splits sum.splits)
    from recalc_cntr_ptr [OF r] p show ?thesis by simp
  next
    case False
    with lt inr "1.prems"(1) have c: "carry_cntr rnd ts (idx + 1) ?g1 = Inr (True, g')"
      by (simp add: carry_cntr.simps [of rnd ts idx g])
    from "1.IH" [OF lt _ False c] inr p show ?thesis by simp
  qed
qed

text \<open>One call of the fast advance against one call of the base advance.\<close>

lemma advance_fast_base:
  assumes w: "same_walk f g" and s: "same_sizes f g" and p: "pointers_follow_counter f"
    and a: "advanceToNextConfiguration_fast rnd ts f = Inr (b, f')"
  shows "\<exists>g'. advanceToNextConfiguration rnd ts' g = Inr (b, g') \<and>
           (b \<longrightarrow> same_walk f' g' \<and> same_sizes f' g' \<and> pointers_follow_counter f')"
proof -
  from a have hr: "hot_in_range f"
    by (simp add: advanceToNextConfiguration_fast_def split: if_splits)
  from p have c0: "counter f \<noteq> []" and ptr: "counter f ! 0 + 1 = int (lProbs_ptr f)"
    and mp: "mass_ptr f = lProbs_ptr f" and ep: "exp_ptr f = lProbs_ptr f"
    by (simp_all add: pointers_follow_counter_def)
  from w have eq: "counter g = counter f" "partialLProbs g = partialLProbs f"
    "marginalResults g = marginalResults f" "maxConfsLPSum g = maxConfsLPSum f"
    "Lcutoff g = Lcutoff f" "dimNumber g = dimNumber f"
    by (simp_all add: same_walk_def)
  from hr ptr have br: "base_in_range g"
    by (simp add: base_in_range_def hot_in_range_def eq)
  have w1: "same_walk (hot_step rnd f) (base_step rnd g)"
    by (simp add: same_walk_def hot_step_def base_step_def eq ptr)
  have s1: "same_sizes (hot_step rnd f) (base_step rnd g)"
    using s by (simp add: same_sizes_def hot_step_def base_step_def)
  show ?thesis
  proof (cases "Lcutoff f \<le> partialLProbs (hot_step rnd f) ! 0")
    case True
    with a hr have ar: "hot_accept_in_range (hot_step rnd f)"
      and f': "f' = hot_accept rnd (hot_step rnd f)" and b: "b"
      by (auto simp: advanceToNextConfiguration_fast_def split: if_splits)
    from w1 True have t: "Lcutoff g \<le> partialLProbs (base_step rnd g) ! 0"
      by (simp add: same_walk_def eq)
    from hr c0 ptr have c1: "counter (base_step rnd g) ! 0 = int (lProbs_ptr f)"
      by (cases "counter f") (simp_all add: base_step_def eq)
    from ar s hr c0 c1 mp ep have ab: "accept_in_range 0 (base_step rnd g)"
      by (simp add: accept_in_range_def hot_accept_in_range_def hot_in_range_def
            same_sizes_def base_step_def hot_step_def eq)
    have "same_walk f' (accept_step rnd 0 (base_step rnd g))"
      using w1 by (simp add: f' same_walk_def hot_accept_def accept_step_def)
    moreover have "same_sizes f' (accept_step rnd 0 (base_step rnd g))"
      using s1 by (simp add: f' same_sizes_def hot_accept_def accept_step_def)
    moreover from c0 ptr mp ep have "pointers_follow_counter f'"
      by (cases "counter f")
         (simp_all add: f' pointers_follow_counter_def hot_accept_def hot_step_def)
    ultimately show ?thesis using br t ab b
      by (simp add: advanceToNextConfiguration_def)
  next
    case False
    let ?f1 = "(hot_step rnd f)\<lparr>lProbs_ptr := 1, mass_ptr := 1, exp_ptr := 1\<rparr>"
    from False a hr have c: "carry rnd ts 0 ?f1 = Inr (b, f')"
      by (simp add: advanceToNextConfiguration_fast_def)
    from w1 False have t: "\<not> Lcutoff g \<le> partialLProbs (base_step rnd g) ! 0"
      by (simp add: same_walk_def eq)
    from w1 have w2: "same_walk ?f1 (base_step rnd g)" by (simp add: same_walk_def)
    from s1 have s2: "same_sizes ?f1 (base_step rnd g)" by (simp add: same_sizes_def)
    from carry_sim [OF c w2 s2, of ts']
    obtain g' where cg: "carry rnd ts' 0 (base_step rnd g) = Inr (b, g')"
      and r: "b \<longrightarrow> same_walk f' g' \<and> same_sizes f' g'" by blast
    have "pointers_follow_counter f'" if "b"
    proof -
      from that c have c': "carry rnd ts 0 ?f1 = Inr (True, f')" by simp
      from carry_counter0 [OF c'] carry_ptrs [OF c'] show ?thesis
        by (simp add: pointers_follow_counter_def)
    qed
    with br t cg r show ?thesis by (auto simp: advanceToNextConfiguration_def)
  qed
qed

text \<open>One call of the fast advance against one call of the count-only advance.\<close>

lemma advance_fast_cntr:
  assumes w: "same_walk f c" and p: "lProbs_ptr c = lProbs_ptr f"
    and a: "advanceToNextConfiguration_fast rnd ts f = Inr (b, f')"
  shows "\<exists>c'. advanceToNextConfiguration_cntr rnd ts' c = Inr (b, c') \<and>
           (b \<longrightarrow> same_walk f' c' \<and> lProbs_ptr c' = lProbs_ptr f')"
proof -
  from a have hr: "hot_in_range f"
    by (simp add: advanceToNextConfiguration_fast_def split: if_splits)
  from w have eq: "counter c = counter f" "partialLProbs c = partialLProbs f"
    "marginalResults c = marginalResults f" "maxConfsLPSum c = maxConfsLPSum f"
    "Lcutoff c = Lcutoff f" "dimNumber c = dimNumber f"
    by (simp_all add: same_walk_def)
  from hr have hc: "hot_in_range c" by (simp add: hot_in_range_def eq p)
  have w1: "same_walk (hot_step rnd f) (hot_step_cntr rnd c)"
    by (simp add: same_walk_def hot_step_def hot_step_cntr_def eq p)
  show ?thesis
  proof (cases "Lcutoff f \<le> partialLProbs (hot_step rnd f) ! 0")
    case True
    with a hr have f': "f' = hot_accept rnd (hot_step rnd f)" and b: "b"
      by (auto simp: advanceToNextConfiguration_fast_def split: if_splits)
    from w1 True have t: "Lcutoff c \<le> partialLProbs (hot_step_cntr rnd c) ! 0"
      by (simp add: same_walk_def eq)
    have "same_walk f' (hot_step_cntr rnd c)"
      using w1 by (simp add: f' same_walk_def hot_accept_def)
    moreover have "lProbs_ptr (hot_step_cntr rnd c) = lProbs_ptr f'"
      by (simp add: f' hot_accept_def hot_step_def hot_step_cntr_def p)
    ultimately show ?thesis using hc t b
      by (simp add: advanceToNextConfiguration_cntr_def)
  next
    case False
    let ?f1 = "(hot_step rnd f)\<lparr>lProbs_ptr := 1, mass_ptr := 1, exp_ptr := 1\<rparr>"
    let ?c1 = "(hot_step_cntr rnd c)\<lparr>lProbs_ptr := 1\<rparr>"
    from False a hr have cf: "carry rnd ts 0 ?f1 = Inr (b, f')"
      by (simp add: advanceToNextConfiguration_fast_def)
    from w1 False have t: "\<not> Lcutoff c \<le> partialLProbs (hot_step_cntr rnd c) ! 0"
      by (simp add: same_walk_def eq)
    from w1 have w2: "same_walk ?f1 ?c1" by (simp add: same_walk_def)
    from carry_cntr_sim [OF cf w2, of ts']
    obtain c' where cc: "carry_cntr rnd ts' 0 ?c1 = Inr (b, c')"
      and r: "b \<longrightarrow> same_walk f' c'" by blast
    have "lProbs_ptr c' = lProbs_ptr f'" if "b"
    proof -
      from that cf have 1: "carry rnd ts 0 ?f1 = Inr (True, f')" by simp
      from that cc have 2: "carry_cntr rnd ts' 0 ?c1 = Inr (True, c')" by simp
      from carry_ptrs [OF 1] carry_cntr_ptr [OF 2] show ?thesis by simp
    qed
    with hc t cc r show ?thesis by (auto simp: advanceToNextConfiguration_cntr_def)
  qed
qed

text \<open>Two loops whose calls answer alike end after the same number of calls.\<close>

lemma run_sim:
  assumes step: "\<And>s t b s'. R s t \<Longrightarrow> advA s = Inr (b, s') \<Longrightarrow>
                   \<exists>t'. advB t = Inr (b, t') \<and> (b \<longrightarrow> R s' t')"
  shows "R s t \<Longrightarrow> run advA n s = Some (Inr ss) \<Longrightarrow>
           \<exists>tt. run advB n t = Some (Inr tt) \<and> length tt = length ss"
proof (induction n arbitrary: s t ss)
  case 0
  then show ?case by simp
next
  case (Suc n)
  from Suc.prems(2) obtain b s' where a: "advA s = Inr (b, s')"
    by (cases "advA s") (auto split: prod.splits)
  from step [OF Suc.prems(1) a] obtain t' where bt: "advB t = Inr (b, t')"
    and r: "b \<longrightarrow> R s' t'" by blast
  show ?case
  proof (cases b)
    case False
    with a bt Suc.prems(2) show ?thesis by auto
  next
    case True
    with a Suc.prems(2) obtain ss' where rs: "run advA n s' = Some (Inr ss')"
      and ss: "ss = s' # ss'"
      by (auto split: option.splits sum.splits)
    from Suc.IH [OF _ rs] r True obtain tt' where "run advB n t' = Some (Inr tt')"
      and "length tt' = length ss'" by blast
    with True bt ss show ?thesis by auto
  qed
qed

lemma emissions_sim:
  assumes step: "\<And>s t b s'. R s t \<Longrightarrow> advA s = Inr (b, s') \<Longrightarrow>
                   \<exists>t'. advB t = Inr (b, t') \<and> (b \<longrightarrow> R s' t')"
    and "R s t" and "emissions advA n s = Some (Inr k)"
  shows "emissions advB n t = Some (Inr k)"
proof -
  from assms(3) obtain x where x: "run advA n s = Some x" "map_sum id length x = Inr k"
    by (cases "run advA n s") (auto simp: emissions_def)
  then obtain ss where rs: "run advA n s = Some (Inr ss)" and k: "k = length ss"
    by (cases x) auto
  have "\<exists>tt. run advB n t = Some (Inr tt) \<and> length tt = length ss"
    using assms(2) rs
  proof (rule run_sim [where R = R and advA = advA and advB = advB, rotated])
    fix s t b s'
    assume "R s t" "advA s = Inr (b, s')"
    then show "\<exists>t'. advB t = Inr (b, t') \<and> (b \<longrightarrow> R s' t')" by (rule step)
  qed
  then obtain tt where "run advB n t = Some (Inr tt)" "length tt = length ss" by blast
  with k show ?thesis by (simp add: emissions_def)
qed

section \<open>The threshold bound\<close>

text \<open>
  C3. Every configuration for which \<^verbatim>\<open>advanceToNextConfiguration\<close> returns true is meant to
  have \<open>partialLProbs[0] \<ge> Lcutoff\<close>, also right after a carry is accepted at a higher
  dimension. The fast generator \<open>ex3_f0\<close> over three element slots, with the cutoff
  \<^verbatim>\<open>-3.465735902799726\<close>, is in the state construction yields (\<open>construct_ex3_fast\<close>). Its
  first call returns true on the hot path. Its second call carries into slot 2: the test
  of the carry loop adds the new \<open>partialLProbs[2] = lg3\<close> to \<open>maxConfsLPSum[1]\<close>, the
  double \<open>lg1 + lg1\<close>, and the rounded sum is the cutoff itself, so the carry is accepted;
  \<^verbatim>\<open>recalc\<close> then adds the same three doubles in the other order, \<open>(lg3 + lg1) + lg1\<close>,
  which rounds to the double below. The call returns true with
  \<open>lprob() = partialLProbs[0]\<close> below \<open>Lcutoff\<close>.
\<close>

theorem carry_reports_lprob_below_cutoff:
  "advanceToNextConfiguration_fast fl id ex3_f0 = Inr (True, ex3_f1) \<and>
   advanceToNextConfiguration_fast fl id ex3_f1 = Inr (True, ex3_f2) \<and>
   counter ex3_f1 = [0, 0, 0] \<and> counter ex3_f2 = [0, 0, 1] \<and>
   carry_test fl 1 (carry_step fl 1 (carry_step fl 0 (hot_step fl ex3_f1))) \<and>
   fl (lg3 + fl (lg1 + lg1)) = lg5_up \<and>
   fl (fl (lg3 + lg1) + lg1) = lg5 \<and>
   Lcutoff ex3_f2 = lg5_up \<and>
   lprob ex3_f2 = Inr lg5 \<and>
   partialLProbs ex3_f2 ! 0 < Lcutoff ex3_f2"
  by (simp add: advance_ex3_first advance_ex3_second)
     (simp add: lprob_def carry_test_def carry_step_def hot_step_def ex_defs fl_eval
        iso_threshold_generator.extend_def)

section \<open>The fast generator against the base generator\<close>

text \<open>The hot path of the fast generator, from any state whose three table pointers stand
  at the same entry \<open>p\<close>: the log-probability it reports is that of entry \<open>p\<close>, the mass
  and the probability are those of entry \<open>p + 1\<close>.\<close>

lemma fast_hot_path_reads:
  assumes "advanceToNextConfiguration_fast rnd ts g = Inr (True, g')"
    and "Lcutoff g \<le> rnd (partialLProbs g ! 1 + lProbs (marginalResults g ! 0) ! p)"
    and "lProbs_ptr g = p" "mass_ptr g = p" "exp_ptr g = p"
  shows "lprob g' = Inr (rnd (partialLProbs g ! 1 + lProbs (marginalResults g ! 0) ! p)) \<and>
         mass g' = Inr (rnd (partialMasses g ! 1 + masses (marginalResults g ! 0) ! (p + 1))) \<and>
         eprob g' = Inr (rnd (partialExpProbs g ! 1 * eProbs (marginalResults g ! 0) ! (p + 1)))"
proof -
  from assms(1) have r: "hot_in_range g"
    by (simp add: advanceToNextConfiguration_fast_def split: if_splits)
  with assms(2,3) have le: "Lcutoff g \<le> partialLProbs (hot_step rnd g) ! 0"
    by (simp add: hot_step_def hot_in_range_def nth0_upd0)
  with assms(1) r have a: "hot_accept_in_range (hot_step rnd g)"
    and g': "g' = hot_accept rnd (hot_step rnd g)"
    by (simp_all add: advanceToNextConfiguration_fast_def split: if_splits)
  from r a assms(3,4,5) show ?thesis
    unfolding g' by (auto simp: lprob_def mass_def eprob_def hot_accept_def hot_step_def
        hot_in_range_def hot_accept_in_range_def nth0_upd0)
qed

text \<open>
  C1. The fast generator is meant to be functionally identical to the base generator:
  the same booleans from \<^verbatim>\<open>advanceToNextConfiguration\<close> and, after each successful advance,
  the same \<^verbatim>\<open>lprob()\<close>, \<^verbatim>\<open>mass()\<close> and \<^verbatim>\<open>eprob()\<close>. On the one-slot molecule \<open>ex_iso\<close> with
  threshold \<open>exp (- 10)\<close> the first advance of both succeeds and both stand at table entry
  0, the mode. The base generator reports the log-probability \<open>lg1\<close>, the mass \<open>24\<close> and
  the probability \<open>1/2\<close> of that entry. The fast generator reports the log-probability
  \<open>lg1\<close> of entry 0 next to the mass \<open>25\<close> and the probability \<open>1/8\<close> of entry 1, a triple
  that is no entry of the table: it reads \<^verbatim>\<open>*lProbs_ptr\<close> before moving the pointer and
  \<^verbatim>\<open>*mass_ptr\<close>, \<^verbatim>\<open>*exp_ptr\<close> after moving them.
\<close>

theorem fast_first_advance_differs_from_base:
  "IsoThresholdGenerator fl ex_iso ex_tables (exp (- 10)) True = Inr ex_g0 \<and>
   IsoThresholdGeneratorFast fl ex_iso ex_tables (exp (- 10)) True = Inr ex_f0 \<and>
   advanceToNextConfiguration fl id ex_g0 = Inr (True, ex_g1) \<and>
   advanceToNextConfiguration_fast fl id ex_f0 = Inr (True, ex_f1) \<and>
   counter ex_g1 = [0] \<and> counter ex_f1 = [0] \<and>
   (lprob ex_g1, mass ex_g1, eprob ex_g1) = (Inr lg1, Inr 24, Inr (1 / 2)) \<and>
   (lprob ex_f1, mass ex_f1, eprob ex_f1) = (Inr lg1, Inr 25, Inr (1 / 8)) \<and>
   mass ex_f1 \<noteq> mass ex_g1 \<and> eprob ex_f1 \<noteq> eprob ex_g1 \<and>
   (lg1, 25, 1 / 8) \<notin> set (zip (lProbs (ex_tables ! 0))
                             (zip (masses (ex_tables ! 0)) (eProbs (ex_tables ! 0))))"
  by (simp add: construct_ex construct_ex_fast advance_ex_base advance_ex_fast)
     (simp add: lprob_def mass_def eprob_def ex_defs iso_threshold_generator.extend_def)

section \<open>Threshold completeness\<close>

text \<open>
  C4. Between construction and the first \<open>false\<close> the threshold generator is meant to
  emit exactly the joint configurations with log-probability at least \<open>log \<tau>\<close>. On
  \<open>ex3_iso\<close> with \<open>log \<tau>\<close> the double \<^verbatim>\<open>-3.465735902799726\<close> the only such configuration is
  the joint mode \<open>[0, 0, 0]\<close>, whether the log-probability of a configuration is the
  double the recurrence computes or the exact sum of its table entries. The fast
  generator emits \<open>[0, 0, 0]\<close> and then \<open>[0, 0, 1]\<close>, whose log-probability is the double
  below the cutoff.
\<close>

theorem run_emits_configuration_below_cutoff:
  "IsoThresholdGeneratorFast fl ex3_iso ex3_tables (exp lg5_up) True = Inr ex3_f0 \<and>
   map_option (map_sum id (map counter)) (run (advanceToNextConfiguration_fast fl id) 3 ex3_f0)
     = Some (Inr [[0, 0, 0], [0, 0, 1]]) \<and>
   above_cutoff fl ex3_tables (ln (exp lg5_up)) = [[0, 0, 0]] \<and>
   above_cutoff (\<lambda>x. x) ex3_tables (ln (exp lg5_up)) = [[0, 0, 0]] \<and>
   joint_lprob fl ex3_tables [0, 0, 1] = lg5 \<and>
   joint_lprob fl ex3_tables [0, 0, 1] < ln (exp lg5_up) \<and>
   joint_lprob (\<lambda>x. x) ex3_tables [0, 0, 1] < ln (exp lg5_up)"
proof -
  have "map_option (map_sum id (map counter)) (run (advanceToNextConfiguration_fast fl id) 3 ex3_f0)
     = Some (Inr [[0, 0, 0], [0, 0, 1]])"
    by (simp add: numeral_nat advance_ex3_first advance_ex3_second advance_ex3_third)
       (simp add: ex_defs)
  moreover have "above_cutoff fl ex3_tables (ln (exp lg5_up)) = [[0, 0, 0]]"
    by (simp add: above_cutoff_def joint_lprob_def ex3_tables_def fl_eval
          upt_rec [of 0] upt_rec [of 1] upt_rec [of 2] upt_rec [of 3] numeral_2_eq_2 numeral_3_eq_3)
  moreover have "above_cutoff (\<lambda>x. x) ex3_tables (ln (exp lg5_up)) = [[0, 0, 0]]"
    by (simp add: above_cutoff_def joint_lprob_def ex3_tables_def
          upt_rec [of 0] upt_rec [of 1] upt_rec [of 2] upt_rec [of 3] numeral_2_eq_2 numeral_3_eq_3)
  moreover have "joint_lprob fl ex3_tables [0, 0, 1] = lg5"
    by (simp add: joint_lprob_def ex3_tables_def fl_eval)
  moreover have "joint_lprob (\<lambda>x. x) ex3_tables [0, 0, 1] < ln (exp lg5_up)"
    by (simp add: joint_lprob_def ex3_tables_def)
  ultimately show ?thesis by (simp add: construct_ex3_fast)
qed

section \<open>Count invariance\<close>

lemma constructed_fast:
  assumes "IsoThresholdGenerator rnd i tables \<tau> absolute = Inr g0"
    and "IsoThresholdGeneratorFast rnd i tables \<tau> absolute = Inr f0"
  shows "same_walk f0 g0 \<and> same_sizes f0 g0 \<and> pointers_follow_counter f0"
proof -
  from assms have
    f0: "f0 = iso_threshold_generator.extend g0 \<lparr>lProbs_ptr = 0, mass_ptr = 0, exp_ptr = 0\<rparr>"
    by (simp add: IsoThresholdGeneratorFast_def split: if_splits)
  from constructor_ok [OF assms(1)] have "counter g0 \<noteq> []" "counter g0 ! 0 = - 1" by simp_all
  then show ?thesis
    by (simp add: f0 same_walk_def same_sizes_def pointers_follow_counter_def)
qed

text \<open>
  C7. For the same molecule, tables, threshold and flag: whenever the loop
  \<^verbatim>\<open>while(advanceToNextConfiguration())\<close> over the fast generator ends, after \<open>k\<close> successful
  calls and without an access outside an array, the loop over the base generator and the
  loop over the count-only generator end as well, after the same number \<open>k\<close> of successful
  calls. This holds for every rounding of the double arithmetic and whatever
  \<^verbatim>\<open>terminate_search\<close> does.
\<close>

theorem count_invariance:
  assumes "IsoThresholdGenerator rnd i tables \<tau> absolute = Inr g0"
    and "IsoThresholdGeneratorFast rnd i tables \<tau> absolute = Inr f0"
    and "IsoThresholdGeneratorCntr rnd i tables \<tau> absolute = Inr c0"
    and "emissions (advanceToNextConfiguration_fast rnd ts) n f0 = Some (Inr k)"
  shows "emissions (advanceToNextConfiguration rnd ts') n g0 = Some (Inr k) \<and>
         emissions (advanceToNextConfiguration_cntr rnd ts'') n c0 = Some (Inr k)"
proof
  from constructed_fast [OF assms(1,2)]
  have r: "same_walk f0 g0 \<and> same_sizes f0 g0 \<and> pointers_follow_counter f0" .
  show "emissions (advanceToNextConfiguration rnd ts') n g0 = Some (Inr k)"
    using r assms(4)
  proof (rule emissions_sim [where advA = "advanceToNextConfiguration_fast rnd ts"
          and R = "\<lambda>f g. same_walk f g \<and> same_sizes f g \<and> pointers_follow_counter f", rotated])
    fix s :: iso_threshold_generator_fast and t :: iso_threshold_generator and b s'
    assume "same_walk s t \<and> same_sizes s t \<and> pointers_follow_counter s"
      and "advanceToNextConfiguration_fast rnd ts s = Inr (b, s')"
    then show "\<exists>t'. advanceToNextConfiguration rnd ts' t = Inr (b, t') \<and>
                 (b \<longrightarrow> same_walk s' t' \<and> same_sizes s' t' \<and> pointers_follow_counter s')"
      using advance_fast_base [of s t rnd ts b s' ts'] by blast
  qed
next
  from assms(2,3) have c0: "c0 = f0" by (simp add: IsoThresholdGeneratorCntr_def)
  have r: "same_walk f0 c0 \<and> lProbs_ptr c0 = lProbs_ptr f0"
    by (simp add: c0 same_walk_def)
  show "emissions (advanceToNextConfiguration_cntr rnd ts'') n c0 = Some (Inr k)"
    using r assms(4)
  proof (rule emissions_sim [where advA = "advanceToNextConfiguration_fast rnd ts"
          and R = "\<lambda>f c. same_walk f c \<and> lProbs_ptr c = lProbs_ptr f", rotated])
    fix s t :: iso_threshold_generator_fast and b s'
    assume "same_walk s t \<and> lProbs_ptr t = lProbs_ptr s"
      and "advanceToNextConfiguration_fast rnd ts s = Inr (b, s')"
    then show "\<exists>t'. advanceToNextConfiguration_cntr rnd ts'' t = Inr (b, t') \<and>
                 (b \<longrightarrow> same_walk s' t' \<and> lProbs_ptr t' = lProbs_ptr s')"
      using advance_fast_cntr [of s t rnd ts b s' ts''] by blast
  qed
qed

lemma construct_ex3_cntr:
  "IsoThresholdGeneratorCntr fl ex3_iso ex3_tables (exp lg5_up) True = Inr ex3_f0"
  by (simp add: IsoThresholdGeneratorCntr_def construct_ex3_fast)

lemma emissions_ex3_fast:
  "emissions (advanceToNextConfiguration_fast fl id) 3 ex3_f0 = Some (Inr 2)"
  by (simp add: emissions_def numeral_nat advance_ex3_first advance_ex3_second advance_ex3_third)

theorem count_invariance_witness:
  "IsoThresholdGenerator fl ex3_iso ex3_tables (exp lg5_up) True = Inr ex3_g0 \<and>
   IsoThresholdGeneratorFast fl ex3_iso ex3_tables (exp lg5_up) True = Inr ex3_f0 \<and>
   IsoThresholdGeneratorCntr fl ex3_iso ex3_tables (exp lg5_up) True = Inr ex3_f0 \<and>
   emissions (advanceToNextConfiguration_fast fl id) 3 ex3_f0 = Some (Inr 2) \<and>
   emissions (advanceToNextConfiguration fl id) 3 ex3_g0 = Some (Inr 2) \<and>
   emissions (advanceToNextConfiguration_cntr fl id) 3 ex3_f0 = Some (Inr 2)"
  using count_invariance [OF construct_ex3 construct_ex3_fast construct_ex3_cntr emissions_ex3_fast,
      where ts' = id and ts'' = id]
  by (simp add: construct_ex3 construct_ex3_fast construct_ex3_cntr emissions_ex3_fast)

section \<open>Threshold semantics\<close>

text \<open>
  C6. A generator constructed with \<open>absolute = true\<close> compares against
  \<open>Lcutoff = log \<tau>\<close>, one constructed with \<open>absolute = false\<close> against
  \<open>Lcutoff = log \<tau> + modeLProb\<close>; so a log-probability \<open>l\<close> passes the cutoff exactly when
  the probability \<open>exp l\<close> is at least \<open>\<tau>\<close>, respectively at least the fraction \<open>\<tau>\<close> of the
  mode's height \<open>exp modeLProb\<close>.
\<close>

theorem cutoff_semantics:
  assumes "IsoThresholdGenerator rnd i tables \<tau> absolute = Inr g"
  shows "Lcutoff g = (if absolute then ln \<tau> else ln \<tau> + modeLProb i) \<and>
         (Lcutoff g \<le> l \<longleftrightarrow> (if absolute then \<tau> else \<tau> * exp (modeLProb i)) \<le> exp l)"
proof -
  from constructor_ok [OF assms]
  have L: "Lcutoff g = (if absolute then ln \<tau> else ln \<tau> + modeLProb i)" and pos: "0 < \<tau>"
    by (simp_all add: threshold_cutoff_def)
  have a: "ln \<tau> \<le> l \<longleftrightarrow> \<tau> \<le> exp l"
  proof -
    have "ln \<tau> \<le> l \<longleftrightarrow> exp (ln \<tau>) \<le> exp l" by simp
    with pos show ?thesis by simp
  qed
  have r: "ln \<tau> + modeLProb i \<le> l \<longleftrightarrow> \<tau> * exp (modeLProb i) \<le> exp l"
  proof -
    have "ln \<tau> + modeLProb i \<le> l \<longleftrightarrow> exp (ln \<tau> + modeLProb i) \<le> exp l" by simp
    also from pos have "exp (ln \<tau> + modeLProb i) = \<tau> * exp (modeLProb i)" by (simp add: exp_add)
    finally show ?thesis .
  qed
  from L a r show ?thesis by simp
qed

lemma construct_ex_relative:
  "IsoThresholdGenerator fl ex_iso ex_tables (exp (- 10)) False
     = Inr (ex_g0\<lparr>Lcutoff := - 10 + lg1\<rparr>)"
  by (simp add: IsoThresholdGenerator_def threshold_cutoff_def gen_eval ex_defs fl_eval)

theorem cutoff_semantics_witness:
  "IsoThresholdGenerator fl ex_iso ex_tables (exp (- 10)) False
     = Inr (ex_g0\<lparr>Lcutoff := - 10 + lg1\<rparr>) \<and>
   Lcutoff (ex_g0\<lparr>Lcutoff := - 10 + lg1\<rparr>) = ln (exp (- 10)) + modeLProb ex_iso \<and>
   (Lcutoff (ex_g0\<lparr>Lcutoff := - 10 + lg1\<rparr>) \<le> - 2)
     = (exp (- 10) * exp (modeLProb ex_iso) \<le> exp (- 2))"
  using cutoff_semantics [OF construct_ex_relative, of "- 2"]
  by (simp add: construct_ex_relative)

section \<open>Configuration signatures\<close>

lemma signature_from_step:
  "ii < D \<Longrightarrow> signature_from D ks tabs idx ii =
     take (ks ! ii) (tabs ! ii ! nat (idx ! ii)) @ signature_from D ks tabs idx (ii + 1)"
  by (simp add: signature_from_def upt_conv_Cons)

lemma signature_from_end: "\<not> ii < D \<Longrightarrow> signature_from D ks tabs idx ii = []"
  by (simp add: signature_from_def)

lemma memcpy_ints_Inr:
  "memcpy_ints space off src n = Inr space' \<longleftrightarrow>
     off + n \<le> length space \<and> n \<le> length src \<and>
     space' = take off space @ take n src @ drop (off + n) space"
  by (auto simp: memcpy_ints_def)

lemma copy_confs_closed:
  "copy_confs D ks tabs idx ii off space = Inr out \<Longrightarrow> length space' = length space \<Longrightarrow>
   off \<le> length space \<Longrightarrow>
     copy_confs D ks tabs idx ii off space' =
       Inr (take off space' @ signature_from D ks tabs idx ii
            @ drop (off + length (signature_from D ks tabs idx ii)) space') \<and>
     off + length (signature_from D ks tabs idx ii) \<le> length space"
proof (induction D ks tabs idx ii off space arbitrary: space' rule: copy_confs.induct)
  case (1 D ks tabs idx ii off space)
  show ?case
  proof (cases "ii < D")
    case False
    with "1.prems" show ?thesis
      by (simp add: copy_confs.simps [of D ks tabs idx ii] signature_from_end)
  next
    case True
    let ?src = "tabs ! ii ! nat (idx ! ii)"
    let ?k = "ks ! ii"
    from True "1.prems"(1) have rng: "ii < length tabs \<and> ii < length idx \<and> ii < length ks \<and>
            0 \<le> idx ! ii \<and> nat (idx ! ii) < length (tabs ! ii)"
      by (simp add: copy_confs.simps [of D ks tabs idx ii off space] split: if_splits)
    with True "1.prems"(1) obtain s1 where m: "memcpy_ints space off ?src ?k = Inr s1"
      and c: "copy_confs D ks tabs idx (ii + 1) (off + ?k) s1 = Inr out"
      by (simp add: copy_confs.simps [of D ks tabs idx ii off space] split: sum.splits)
    from m have b: "off + ?k \<le> length space" "?k \<le> length ?src"
      and s1: "s1 = take off space @ take ?k ?src @ drop (off + ?k) space"
      by (simp_all add: memcpy_ints_Inr)
    let ?s1' = "take off space' @ take ?k ?src @ drop (off + ?k) space'"
    from b "1.prems"(2) have m': "memcpy_ints space' off ?src ?k = Inr ?s1'"
      by (simp add: memcpy_ints_Inr)
    from b s1 "1.prems"(2) have len: "length ?s1' = length s1" "length s1 = length space" by auto
    let ?P = "signature_from D ks tabs idx (ii + 1)"
    from b len have offk: "off + ?k \<le> length s1" by simp
    from "1.IH" [OF True rng m c len(1) offk]
    have ih: "copy_confs D ks tabs idx (ii + 1) (off + ?k) ?s1' =
                Inr (take (off + ?k) ?s1' @ ?P @ drop (off + ?k + length ?P) ?s1')"
      and bd: "off + ?k + length ?P \<le> length s1"
      by simp_all
    from b "1.prems"(2) have t: "take (off + ?k) ?s1' = take off space' @ take ?k ?src"
      by simp
    from b "1.prems"(2) have d: "drop (off + ?k + length ?P) ?s1' = drop (off + ?k + length ?P) space'"
      by (simp add: add.commute)
    from b have lk: "length (take ?k ?src) = ?k" by simp
    show ?thesis
      using True rng m' ih t d bd len lk b
      by (simp add: copy_confs.simps [of D ks tabs idx ii off space'] signature_from_step ac_simps)
  qed
qed


lemma copy_confs_total:
  "ii \<le> D \<Longrightarrow> D \<le> length tabs \<Longrightarrow> D \<le> length idx \<Longrightarrow> D \<le> length ks \<Longrightarrow>
   (\<forall>j. ii \<le> j \<and> j < D \<longrightarrow>
        0 \<le> idx ! j \<and> nat (idx ! j) < length (tabs ! j) \<and> ks ! j \<le> length (tabs ! j ! nat (idx ! j))) \<Longrightarrow>
   off + length (signature_from D ks tabs idx ii) \<le> length space \<Longrightarrow>
     \<exists>out. copy_confs D ks tabs idx ii off space = Inr out"
proof (induction D ks tabs idx ii off space rule: copy_confs.induct)
  case (1 D ks tabs idx ii off space)
  show ?case
  proof (cases "ii < D")
    case False
    then show ?thesis by (simp add: copy_confs.simps [of D ks tabs idx ii])
  next
    case True
    let ?src = "tabs ! ii ! nat (idx ! ii)"
    let ?k = "ks ! ii"
    let ?s1 = "take off space @ take ?k ?src @ drop (off + ?k) space"
    from True "1.prems" have rng: "ii < length tabs \<and> ii < length idx \<and> ii < length ks \<and>
            0 \<le> idx ! ii \<and> nat (idx ! ii) < length (tabs ! ii)" and k: "?k \<le> length ?src"
      by simp_all
    from k have lk: "length (take ?k ?src) = ?k" by simp
    from True "1.prems"(6) lk
    have sz: "off + ?k + length (signature_from D ks tabs idx (ii + 1)) \<le> length space"
      by (simp add: signature_from_step)
    with k have m: "memcpy_ints space off ?src ?k = Inr ?s1"
      by (simp add: memcpy_ints_Inr)
    from sz k have len: "length ?s1 = length space" by simp
    from True have le: "ii + 1 \<le> D" by simp
    from "1.prems"(5) have all: "\<forall>j. ii + 1 \<le> j \<and> j < D \<longrightarrow>
        0 \<le> idx ! j \<and> nat (idx ! j) < length (tabs ! j) \<and> ks ! j \<le> length (tabs ! j ! nat (idx ! j))"
      by simp
    from sz len have sz': "off + ?k + length (signature_from D ks tabs idx (ii + 1)) \<le> length ?s1"
      by simp
    from "1.IH" [OF True rng m le "1.prems"(2,3,4) all sz']
    obtain out where "copy_confs D ks tabs idx (ii + 1) (off + ?k) ?s1 = Inr out" by blast
    with True rng m show ?thesis
      by (simp add: copy_confs.simps [of D ks tabs idx ii off space])
  qed
qed

lemma signature_is_configuration:
  assumes "signature_in_range g n"
  shows "signature_from (dimNumber g) (isotopeNumbers g) (map confs (marginalResults g))
           (counter g) 0 = current_configuration g"
proof -
  from assms have
    "\<forall>j \<in> set [0..<dimNumber g]. take (isotopeNumbers g ! j)
         (map confs (marginalResults g) ! j ! nat (counter g ! j))
       = confs (marginalResults g ! j) ! nat (counter g ! j)"
    by (auto simp: signature_in_range_def list_all_iff)
  then show ?thesis
    unfolding signature_from_def current_configuration_def
    by (intro arg_cong [where f = concat] map_cong refl) simp
qed

lemma take_as_map_nth: "D \<le> length ks \<Longrightarrow> take D ks = map ((!) ks) [0..<D]"
  by (simp add: list_eq_iff_nth_eq)

lemma length_current_configuration:
  assumes "signature_in_range g n"
  shows "length (current_configuration g) = sum_list (take (dimNumber g) (isotopeNumbers g))"
proof -
  have "length (current_configuration g)
      = sum_list (map (\<lambda>ii. length (confs (marginalResults g ! ii) ! nat (counter g ! ii))) [0..<dimNumber g])"
    by (simp add: current_configuration_def length_concat comp_def)
  also from assms have "\<dots> = sum_list (map ((!) (isotopeNumbers g)) [0..<dimNumber g])"
    by (intro arg_cong [where f = sum_list] map_cong refl)
       (auto simp: signature_in_range_def list_all_iff)
  also from assms have "\<dots> = sum_list (take (dimNumber g) (isotopeNumbers g))"
    by (simp add: signature_in_range_def take_as_map_nth)
  finally show ?thesis .
qed

lemma get_conf_signature_writes:
  assumes rng: "signature_in_range g (length space)"
  shows "get_conf_signature g space =
           Inr (current_configuration g @ drop (length (current_configuration g)) space)"
proof -
  let ?D = "dimNumber g" and ?ks = "isotopeNumbers g" and ?tabs = "map confs (marginalResults g)"
    and ?idx = "counter g"
  have sig: "signature_from ?D ?ks ?tabs ?idx 0 = current_configuration g"
    using rng by (rule signature_is_configuration)
  from rng have "\<forall>j. 0 \<le> j \<and> j < ?D \<longrightarrow>
        0 \<le> ?idx ! j \<and> nat (?idx ! j) < length (?tabs ! j) \<and> ?ks ! j \<le> length (?tabs ! j ! nat (?idx ! j))"
    by (auto simp: signature_in_range_def list_all_iff)
  moreover from rng have "0 + length (signature_from ?D ?ks ?tabs ?idx 0) \<le> length space"
    by (simp add: sig length_current_configuration [OF rng] signature_in_range_def)
  moreover from rng have "?D \<le> length ?tabs" "?D \<le> length ?idx" "?D \<le> length ?ks"
    by (simp_all add: signature_in_range_def)
  ultimately obtain out where out: "copy_confs ?D ?ks ?tabs ?idx 0 0 space = Inr out"
    using copy_confs_total [of 0 ?D ?tabs ?idx ?ks 0 space] by blast
  from copy_confs_closed [OF out refl] sig show ?thesis
    by (simp add: get_conf_signature_def)
qed


text \<open>
  C2, as stated: after a successful advance, \<^verbatim>\<open>get_conf_signature\<close> of the base, the fast
  and the count-only generator writes the concatenated atom-count vectors of the current
  configuration into the buffer. After the first advance on \<open>ex_iso\<close> the current
  configuration is \<open>[2, 0]\<close>; the base generator writes it, the fast and the count-only
  generator leave the buffer \<open>[0, 0]\<close> as it was.
\<close>

theorem fast_signature_writes_nothing:
  "advanceToNextConfiguration fl id ex_g0 = Inr (True, ex_g1) \<and>
   advanceToNextConfiguration_fast fl id ex_f0 = Inr (True, ex_f1) \<and>
   advanceToNextConfiguration_cntr fl id ex_f0 = Inr (True, ex_c1) \<and>
   current_configuration ex_g1 = [2, 0] \<and>
   current_configuration ex_f1 = [2, 0] \<and> current_configuration ex_c1 = [2, 0] \<and>
   get_conf_signature ex_g1 [0, 0] = Inr [2, 0] \<and>
   get_conf_signature_fast ex_f1 [0, 0] = Inr [0, 0] \<and>
   get_conf_signature_cntr ex_c1 [0, 0] = Inr [0, 0]"
  by (simp add: advance_ex_base advance_ex_fast advance_ex_cntr get_conf_signature_fast_def
        get_conf_signature_cntr_def)
     (simp add: current_configuration_def get_conf_signature_def copy_confs.simps memcpy_ints_def
        ex_defs iso_threshold_generator.extend_def)

text \<open>
  C2, amended: for the base threshold generator, in a state whose counters lie inside
  the tables, whose configurations have \<open>isotopeNumbers[ii]\<close> entries, and with a buffer of
  at least \<open>\<Sum> k\<^sub>i\<close> cells, \<^verbatim>\<open>get_conf_signature\<close> writes exactly \<open>\<Sum> k\<^sub>i\<close> integers: the first
  \<open>\<Sum> k\<^sub>i\<close> cells become the concatenation, over the slots \<open>ii = 0..D-1\<close>, of the atom-count
  vector of the current configuration of slot \<open>ii\<close>, and the cells behind them keep their
  contents. The overrides of the fast and of the count-only generator write nothing.
\<close>

theorem get_conf_signature_writes_configuration:
  assumes "signature_in_range g (length space)"
  shows "get_conf_signature g space =
           Inr (current_configuration g
                @ drop (sum_list (take (dimNumber g) (isotopeNumbers g))) space) \<and>
         length (current_configuration g) = sum_list (take (dimNumber g) (isotopeNumbers g)) \<and>
         get_conf_signature_fast f space = Inr space \<and>
         get_conf_signature_cntr f space = Inr space"
  using get_conf_signature_writes [OF assms] length_current_configuration [OF assms]
  by (simp add: get_conf_signature_fast_def get_conf_signature_cntr_def)

theorem get_conf_signature_writes_configuration_witness:
  "advanceToNextConfiguration fl id ex2_g0 = Inr (True, ex2_g1) \<and>
   advanceToNextConfiguration fl id ex2_g1 = Inr (True, ex2_g2) \<and>
   signature_in_range ex2_g2 (length [7, 7, 7, 7, 7 :: int]) \<and>
   get_conf_signature ex2_g2 [7, 7, 7, 7, 7] = Inr [1, 1, 2, 0, 7] \<and>
   get_conf_signature_fast ex2_f0 [7, 7, 7, 7, 7] = Inr [7, 7, 7, 7, 7]"
proof -
  have r: "signature_in_range ex2_g2 (length [7, 7, 7, 7, 7 :: int])"
    by (simp add: signature_in_range_def ex_defs numeral_2_eq_2)
  have c: "current_configuration ex2_g2 = [1, 1, 2, 0]"
    by (simp add: current_configuration_def ex_defs numeral_2_eq_2)
  from get_conf_signature_writes_configuration [OF r, of ex2_f0] r c show ?thesis
    by (simp add: advance_ex2_first advance_ex2_second) (simp add: ex_defs)
qed

section \<open>Purity of the ordered generator's signature\<close>

lemma copy_confs_idem:
  assumes "copy_confs D ks tabs idx 0 0 space = Inr out"
  shows "copy_confs D ks tabs idx 0 0 out = Inr out"
proof -
  let ?P = "signature_from D ks tabs idx 0"
  from copy_confs_closed [OF assms refl] assms
  have out: "out = ?P @ drop (length ?P) space" and le: "length ?P \<le> length space"
    by simp_all
  then have len: "length out = length space" by simp
  from copy_confs_closed [OF assms len] have "copy_confs D ks tabs idx 0 0 out = Inr (?P @ drop (length ?P) out)"
    by simp
  also have "drop (length ?P) out = drop (length ?P) space"
    by (subst out) simp
  finally show ?thesis using out by simp
qed


text \<open>
  C9. \<^verbatim>\<open>IsoOrderedGenerator::get_conf_signature\<close> is observationally pure: whenever it
  returns, the configuration vector inside \<^verbatim>\<open>topConf\<close> that it decremented at \<^verbatim>\<open>ccount\<close>
  has been restored, the generator is the one it was before the call, and a second call
  on the buffer just written leaves that buffer unchanged.
\<close>

theorem ordered_signature_pure:
  assumes "get_conf_signature_ordered g space = Inr (g', out)"
  shows "g' = g \<and> get_conf_signature_ordered g out = Inr (g, out)"
proof -
  let ?c = "snd (topConf g)"
  let ?n = "nat (ccount g)"
  let ?c1 = "if ccount g \<ge> 0 then ?c[?n := ?c ! ?n - 1] else ?c"
  let ?c2 = "if ccount g \<ge> 0 then ?c1[?n := ?c1 ! ?n + 1] else ?c1"
  from assms have rng: "ccount g \<ge> 0 \<longrightarrow> ?n < length ?c"
    by (auto simp: get_conf_signature_ordered_def Let_def split: if_splits)
  with assms have cp: "copy_confs (dimNumber g) (isotopeNumbers g) (marginalResults_trek g) ?c1 0 0 space = Inr out"
    and g': "g' = g\<lparr>topConf := (fst (topConf g), ?c2)\<rparr>"
    by (auto simp: get_conf_signature_ordered_def Let_def split: if_splits sum.splits)
  from rng have "?c2 = ?c" by simp
  with g' have eq: "g' = g" by simp
  from copy_confs_idem [OF cp] rng \<open>?c2 = ?c\<close> have "get_conf_signature_ordered g out = Inr (g, out)"
    by (auto simp: get_conf_signature_ordered_def Let_def)
  with eq show ?thesis by simp
qed


theorem ordered_signature_pure_witness:
  "get_conf_signature_ordered ex_ordered [7, 7, 7, 7, 7] = Inr (ex_ordered, [1, 1, 2, 0, 7]) \<and>
   get_conf_signature_ordered ex_ordered [1, 1, 2, 0, 7] = Inr (ex_ordered, [1, 1, 2, 0, 7])"
proof -
  have c: "get_conf_signature_ordered ex_ordered [7, 7, 7, 7, 7] = Inr (ex_ordered, [1, 1, 2, 0, 7])"
    by (simp add: get_conf_signature_ordered_def ex_ordered_def Let_def copy_confs.simps
          memcpy_ints_def)
  from ordered_signature_pure [OF c] c show ?thesis by simp
qed

section \<open>Rounding modes in \<^verbatim>\<open>unnormalized_logProb\<close>\<close>

lemma minus_loop_foldl:
  "minus_loop F conf dim' i (res, env) =
     (foldl (\<lambda>res i. fadd F env res (minuslogFactorial F env (conf ! i))) res [i..<dim'], env)"
proof (induction "dim' - i" arbitrary: i res)
  case 0
  then show ?case by (simp add: minus_loop.simps [of F conf dim' i])
next
  case (Suc n)
  then have lt: "i < dim'" and n: "n = dim' - (i + 1)" by simp_all
  from Suc.hyps(1) [OF n] lt show ?case
    by (simp add: minus_loop.simps [of F conf dim' i] upt_conv_Cons fegetround_def)
qed

lemma plus_loop_foldl:
  "plus_loop F conf logProbs dim' i (res, env) =
     (foldl (\<lambda>res i. fadd F env res (fmul F env (of_int (conf ! i)) (logProbs ! i))) res [i..<dim'],
      env)"
proof (induction "dim' - i" arbitrary: i res)
  case 0
  then show ?case by (simp add: plus_loop.simps [of F conf logProbs dim' i])
next
  case (Suc n)
  then have lt: "i < dim'" and n: "n = dim' - (i + 1)" by simp_all
  from Suc.hyps(1) [OF n] lt show ?case
    by (simp add: plus_loop.simps [of F conf logProbs dim' i] upt_conv_Cons fegetround_def)
qed

lemma unnormalized_logProb_passes:
  "unnormalized_logProb F conf logProbs dim' env =
     (if dim' \<le> length conf \<and> dim' \<le> length logProbs
      then Inr (positive_pass F FE_UPWARD conf logProbs dim'
                  (negative_pass F FE_TOWARDZERO conf dim' 0), env)
      else Inl OutOfRange)"
  by (simp add: unnormalized_logProb_def minus_loop_foldl plus_loop_foldl fegetround_def
        fesetround_def negative_pass_def positive_pass_def)

lemma negative_pass_Suc:
  "negative_pass F m conf (Suc n) res0 =
     fadd F m (negative_pass F m conf n res0) (minuslogFactorial F m (conf ! n))"
  by (simp add: negative_pass_def)

lemma positive_pass_Suc:
  "positive_pass F m conf logProbs (Suc n) res0 =
     fadd F m (positive_pass F m conf logProbs n res0) (fmul F m (of_int (conf ! n)) (logProbs ! n))"
  by (simp add: positive_pass_def)

lemma negative_pass_bound:
  assumes "directed_rounding F" "res0 \<le> 0"
  shows "res0 + (\<Sum>i<n. minuslogFactorial F FE_TOWARDZERO (conf ! i))
           \<le> negative_pass F FE_TOWARDZERO conf n res0 \<and>
         negative_pass F FE_TOWARDZERO conf n res0 \<le> 0"
proof (induction n)
  case 0
  from assms(2) show ?case by (simp add: negative_pass_def)
next
  case (Suc n)
  let ?r = "negative_pass F FE_TOWARDZERO conf n res0"
  let ?t = "minuslogFactorial F FE_TOWARDZERO (conf ! n)"
  from assms(1) have t: "?t \<le> 0" by (simp add: directed_rounding_def)
  from Suc.IH have r: "?r \<le> 0" by simp
  from assms(1) r t have "?r + ?t \<le> fadd F FE_TOWARDZERO ?r ?t \<and> fadd F FE_TOWARDZERO ?r ?t \<le> 0"
    unfolding directed_rounding_def by blast
  with Suc.IH show ?case by (simp add: negative_pass_Suc)
qed

lemma positive_pass_bound:
  assumes "directed_rounding F"
  shows "res0 + (\<Sum>i<n. of_int (conf ! i) * logProbs ! i)
           \<le> positive_pass F FE_UPWARD conf logProbs n res0"
proof (induction n)
  case 0
  show ?case by (simp add: positive_pass_def)
next
  case (Suc n)
  let ?r = "positive_pass F FE_UPWARD conf logProbs n res0"
  let ?p = "fmul F FE_UPWARD (of_int (conf ! n)) (logProbs ! n)"
  from assms have "of_int (conf ! n) * logProbs ! n \<le> ?p" "?r + ?p \<le> fadd F FE_UPWARD ?r ?p"
    unfolding directed_rounding_def by blast+
  with Suc.IH show ?case by (simp add: positive_pass_Suc)
qed

text \<open>
  C5. \<^verbatim>\<open>unnormalized_logProb\<close> accumulates the \<open>- log c\<^sub>i!\<close> terms under round-toward-zero,
  then the \<open>c\<^sub>i * log p\<^sub>i\<close> terms under round-upward, and leaves the rounding mode that was
  in force at entry; with directed rounding the value it returns is not below the exact
  sum of the terms, an upper-biased evaluation.
\<close>

theorem unnormalized_logProb_upper_biased:
  assumes "directed_rounding F"
    and "unnormalized_logProb F conf logProbs dim' env = Inr (res, env')"
  shows "env' = env \<and>
         res = positive_pass F FE_UPWARD conf logProbs dim'
                 (negative_pass F FE_TOWARDZERO conf dim' 0) \<and>
         (\<Sum>i<dim'. minuslogFactorial F FE_TOWARDZERO (conf ! i))
           + (\<Sum>i<dim'. of_int (conf ! i) * logProbs ! i) \<le> res"
proof -
  let ?r1 = "negative_pass F FE_TOWARDZERO conf dim' 0"
  from assms(2) have e: "env' = env" and r: "res = positive_pass F FE_UPWARD conf logProbs dim' ?r1"
    by (simp_all add: unnormalized_logProb_passes split: if_splits)
  from negative_pass_bound [OF assms(1), where ?res0.0 = 0 and n = dim' and conf = conf]
  have "(\<Sum>i<dim'. minuslogFactorial F FE_TOWARDZERO (conf ! i)) \<le> ?r1" by simp
  moreover from positive_pass_bound [OF assms(1), where ?res0.0 = ?r1 and n = dim' and conf = conf and logProbs = logProbs]
  have "?r1 + (\<Sum>i<dim'. of_int (conf ! i) * logProbs ! i) \<le> res" by (simp add: r)
  ultimately show ?thesis using e r by simp
qed

lemma directed_rounding_grid: "directed_rounding grid_fpu"
proof -
  have "- (of_int (n * (n - 1)) / 4) \<le> (0::real)" for n :: int
  proof -
    have "0 \<le> n * (n - 1)"
    proof (cases "n \<le> 0")
      case True
      then show ?thesis by (intro mult_nonpos_nonpos) simp_all
    next
      case False
      then show ?thesis by (intro mult_nonneg_nonneg) simp_all
    qed
    then have "0 \<le> (of_int (n * (n - 1)) :: real)" by (simp only: of_int_0_le_iff)
    then show ?thesis by simp
  qed
  then show ?thesis
    by (simp add: directed_rounding_def grid_fpu_def to_grid_def)
qed

lemma grid_run:
  "unnormalized_logProb grid_fpu [3, 1] [- 1 / 2, - 3 / 2] 2 FE_TONEAREST = Inr (- 3, FE_TONEAREST)"
  by (simp add: unnormalized_logProb_passes negative_pass_def positive_pass_def grid_fpu_def
        to_grid_def upt_rec [of 0] upt_rec [of 1] upt_rec [of 2] numeral_2_eq_2)

theorem unnormalized_logProb_upper_biased_witness:
  "directed_rounding grid_fpu \<and>
   unnormalized_logProb grid_fpu [3, 1] [- 1 / 2, - 3 / 2] 2 FE_TONEAREST = Inr (- 3, FE_TONEAREST) \<and>
   (\<Sum>i<2. minuslogFactorial grid_fpu FE_TOWARDZERO ([3, 1] ! i))
     + (\<Sum>i<2. of_int ([3, 1] ! i) * [- 1 / 2, - 3 / 2] ! i) \<le> (- 3 :: real)"
  using unnormalized_logProb_upper_biased [OF directed_rounding_grid grid_run]
    directed_rounding_grid grid_run
  by simp

text \<open>
  C10. The value \<^verbatim>\<open>unnormalized_logProb\<close> returns does not depend on the rounding mode in
  force at the call: two calls with the same arguments under different ambient modes
  return the same result, since every operation runs under a mode the function has set.
\<close>

theorem rounding_mode_independent:
  "map_sum id fst (unnormalized_logProb F conf logProbs dim' env1)
     = map_sum id fst (unnormalized_logProb F conf logProbs dim' env2)"
proof (cases "dim' \<le> length conf \<and> dim' \<le> length logProbs")
  case True
  then have "map_sum id fst (unnormalized_logProb F conf logProbs dim' env)
      = Inr (positive_pass F FE_UPWARD conf logProbs dim' (negative_pass F FE_TOWARDZERO conf dim' 0))"
    for env by (simp add: unnormalized_logProb_passes)
  then show ?thesis by simp
next
  case False
  then show ?thesis by (simp add: unnormalized_logProb_passes)
qed

end
